theory Spec2Isabelle
  imports Complex_Main "HOL-Library.Word"
begin

section \<open>JavaScript strings\<close>

text \<open>
  A JavaScript string is a sequence of UTF-16 code units: \<open>s.length\<close> counts code units and
  \<open>s.substring(0, n)\<close> keeps the first \<open>n\<close> of them. A string is therefore a list of
  16-bit words, \<open>length\<close> is \<open>s.length\<close> and \<open>take n\<close> is \<open>s.substring(0, n)\<close>.
  \<open>lit\<close> turns an ASCII literal of the source into its code units; the non-ASCII literals
  of the source files are written out as the code units the files contain.
\<close>

type_synonym code_unit = "16 word"
type_synonym jstring = "code_unit list"

definition lit :: "string \<Rightarrow> jstring" where
  "lit s = map of_char s"

text \<open>\<open>a || b\<close> on a possibly undefined string: the empty string is falsy as well.\<close>

definition or_else :: "jstring option \<Rightarrow> jstring \<Rightarrow> jstring" where
  "or_else a b = (case a of None \<Rightarrow> b | Some s \<Rightarrow> if s = [] then b else s)"

section \<open>Data model\<close>

text \<open>\<open>TestResult.status\<close> of the test runner; the reporters' \<open>switch\<close> names the first four.\<close>

datatype TestStatus = Passed | Failed | TimedOut | Skipped | Interrupted

record TestError =
  message :: "jstring option"

record TestResult =
  status :: TestStatus
  duration :: int
  retry :: nat
  errors :: "TestError list"

record TestCase =
  test_title :: jstring
  location_file :: jstring

record TestStats =
  total :: nat
  passed :: nat
  failed :: nat
  skipped :: nat
  flaky :: nat
  duration_sum :: int

record FailedTest =
  title :: jstring
  "file" :: jstring
  error :: jstring

text \<open>
  The fields the two reporter classes share; \<open>DiscordReporter\<close> adds the webhook URL,
  \<open>TelegramReporter\<close> the bot token and the chat id. The counters count tests and are
  natural numbers. \<open>maxFailedTestsToShow\<close> is documented as the maximum number of failed
  tests to list, and the record holds it in that domain, the non-negative integers. The
  source takes the option as an unvalidated JavaScript number: \<open>showGroupsNum\<close> below has
  the two loops for any number, and on a non-negative integer they are the loops
  \<open>showGroups\<close> of the model.
\<close>

record Reporter =
  enabled :: bool
  includeFailedTests :: bool
  maxFailedTestsToShow :: nat
  stats :: TestStats
  failedTests :: "FailedTest list"
  startTime :: int
  projectName :: jstring
  baseUrl :: jstring

record DiscordReporter = Reporter +
  webhookUrl :: jstring

record TelegramReporter = Reporter +
  botToken :: jstring
  chatId :: jstring

record ReporterOptions =
  opt_enabled :: "bool option"
  opt_includeFailedTests :: "bool option"
  opt_maxFailedTestsToShow :: "nat option"

record DiscordConfig = ReporterOptions +
  opt_webhookUrl :: "jstring option"

record TelegramConfig = ReporterOptions +
  opt_botToken :: "jstring option"
  opt_chatId :: "jstring option"

text \<open>The environment variables the reporters read through \<open>process.env\<close>.\<close>

record ProcessEnv =
  DISCORD_WEBHOOK_URL :: "jstring option"
  TELEGRAM_BOT_TOKEN :: "jstring option"
  TELEGRAM_CHAT_ID :: "jstring option"
  BASE_URL :: "jstring option"

record Project =
  project_name :: jstring
  project_testDir :: jstring
  project_baseURL :: "jstring option"

section \<open>Construction and \<open>onBegin\<close>\<close>

definition initialStats :: TestStats where
  "initialStats =
     \<lparr>total = 0, passed = 0, failed = 0, skipped = 0, flaky = 0, duration_sum = 0\<rparr>"

definition nullish :: "'a option \<Rightarrow> 'a \<Rightarrow> 'a" where
  "nullish a d = (case a of None \<Rightarrow> d | Some v \<Rightarrow> v)"

definition newDiscordReporter :: "DiscordConfig \<Rightarrow> ProcessEnv \<Rightarrow> DiscordReporter" where
  "newDiscordReporter options env =
     \<lparr>enabled = nullish (opt_enabled options) False,
      includeFailedTests = nullish (opt_includeFailedTests options) True,
      maxFailedTestsToShow = nullish (opt_maxFailedTestsToShow options) 5,
      stats = initialStats,
      failedTests = [],
      startTime = 0,
      projectName = [],
      baseUrl = [],
      webhookUrl = or_else (opt_webhookUrl options) (or_else (DISCORD_WEBHOOK_URL env) [])\<rparr>"

text \<open>The Telegram constructor reads its credentials from the environment only.\<close>

definition newTelegramReporter :: "TelegramConfig \<Rightarrow> ProcessEnv \<Rightarrow> TelegramReporter" where
  "newTelegramReporter options env =
     \<lparr>enabled = nullish (opt_enabled options) False,
      includeFailedTests = nullish (opt_includeFailedTests options) True,
      maxFailedTestsToShow = nullish (opt_maxFailedTestsToShow options) 5,
      stats = initialStats,
      failedTests = [],
      startTime = 0,
      projectName = [],
      baseUrl = [],
      botToken = or_else (TELEGRAM_BOT_TOKEN env) [],
      chatId = or_else (TELEGRAM_CHAT_ID env) []\<rparr>"

text \<open>
  \<open>onBegin\<close> stores the wall-clock time \<open>Date.now()\<close> (here the argument \<open>now\<close>), the base URL
  of the first project and the name of the first project that has a test directory.
\<close>

definition onBegin ::
  "'a Reporter_scheme \<Rightarrow> int \<Rightarrow> Project list \<Rightarrow> ProcessEnv \<Rightarrow> 'a Reporter_scheme" where
  "onBegin r now projects env =
     r\<lparr>startTime := now,
       baseUrl := or_else (case projects of [] \<Rightarrow> None | p # _ \<Rightarrow> project_baseURL p)
                    (or_else (BASE_URL env) []),
       projectName := or_else (map_option project_name
                                 (find (\<lambda>p. project_testDir p \<noteq> []) projects))
                        (lit ''Playwright Tests'')\<rparr>"

section \<open>Event collector\<close>

text \<open>\<open>extractErrorMessage\<close>: the first error's message, cut to 150 code units.\<close>

definition extractErrorMessage :: "TestResult \<Rightarrow> jstring" where
  "extractErrorMessage result =
     (case errors result of
        [] \<Rightarrow> lit ''Unknown error''
      | err # _ \<Rightarrow>
          (let msg = or_else (message err) [];
               maxLength = 150
           in if length msg > maxLength then take maxLength msg @ lit ''...'' else msg))"

text \<open>
  \<open>file.split(/[\\/]/)\<close>: the segments between separators, read from left to right with
  the segment under way in \<open>seg\<close>; the result is never the empty list.
\<close>

definition isPathSep :: "code_unit \<Rightarrow> bool" where
  "isPathSep c \<longleftrightarrow> c = 0x5C \<or> c = 0x2F"

fun split_from :: "jstring \<Rightarrow> jstring \<Rightarrow> jstring list" where
  "split_from seg [] = [seg]"
| "split_from seg (c # cs) =
     (if isPathSep c then seg # split_from [] cs else split_from (seg @ [c]) cs)"

definition split_path :: "jstring \<Rightarrow> jstring list" where
  "split_path f = split_from [] f"

text \<open>\<open>file.split(/[\\/]/).pop() || file\<close>\<close>

definition fileName :: "jstring \<Rightarrow> jstring" where
  "fileName f = or_else (Some (last (split_path f))) f"

definition onTestEnd :: "'a Reporter_scheme \<Rightarrow> TestCase \<Rightarrow> TestResult \<Rightarrow> 'a Reporter_scheme" where
  "onTestEnd r test result =
     (let r1 = r\<lparr>stats := (stats r)\<lparr>total := total (stats r) + 1,
                                    duration_sum := duration_sum (stats r) + duration result\<rparr>\<rparr>;
          r2 = (case status result of
                  Passed \<Rightarrow> r1\<lparr>stats := (stats r1)\<lparr>passed := passed (stats r1) + 1\<rparr>\<rparr>
                | Failed \<Rightarrow>
                    r1\<lparr>stats := (stats r1)\<lparr>failed := failed (stats r1) + 1\<rparr>,
                       failedTests := failedTests r1 @
                         [\<lparr>title = test_title test,
                           file = fileName (location_file test),
                           error = extractErrorMessage result\<rparr>]\<rparr>
                | TimedOut \<Rightarrow>
                    r1\<lparr>stats := (stats r1)\<lparr>failed := failed (stats r1) + 1\<rparr>,
                       failedTests := failedTests r1 @
                         [\<lparr>title = test_title test,
                           file = fileName (location_file test),
                           error = extractErrorMessage result\<rparr>]\<rparr>
                | Skipped \<Rightarrow> r1\<lparr>stats := (stats r1)\<lparr>skipped := skipped (stats r1) + 1\<rparr>\<rparr>
                | Interrupted \<Rightarrow> r1)
      in if status result = Passed \<and> retry result > 0
         then r2\<lparr>stats := (stats r2)\<lparr>flaky := flaky (stats r2) + 1\<rparr>\<rparr>
         else r2)"

text \<open>The runner calls \<open>onTestEnd\<close> once per finished test, in order.\<close>

definition recordAll ::
  "'a Reporter_scheme \<Rightarrow> (TestCase \<times> TestResult) list \<Rightarrow> 'a Reporter_scheme" where
  "recordAll r evs = foldl (\<lambda>s (t, res). onTestEnd s t res) r evs"

definition collector_inv :: "'a Reporter_scheme \<Rightarrow> bool" where
  "collector_inv r \<longleftrightarrow>
     total (stats r) = passed (stats r) + failed (stats r) + skipped (stats r) \<and>
     length (failedTests r) = failed (stats r) \<and>
     flaky (stats r) \<le> passed (stats r)"

definition counted_status :: "TestStatus \<Rightarrow> bool" where
  "counted_status s \<longleftrightarrow> s = Passed \<or> s = Failed \<or> s = TimedOut \<or> s = Skipped"

section \<open>Numbers as text\<close>

text \<open>
  A template literal renders an integer in decimal. \<open>show_nat\<close> and \<open>show_int\<close> are that
  rendering for the counters and for the whole seconds and minutes of a duration.
\<close>

definition digit :: "nat \<Rightarrow> code_unit" where
  "digit d = of_nat (48 + d)"

function show_nat :: "nat \<Rightarrow> jstring" where
  "show_nat n = (if n < 10 then [digit n] else show_nat (n div 10) @ [digit (n mod 10)])"
  by pat_completeness auto
termination
  by (relation "measure id") auto

declare show_nat.simps [simp del]

definition show_int :: "int \<Rightarrow> jstring" where
  "show_int i = (if i < 0 then lit ''-'' @ show_nat (nat (- i)) else show_nat (nat i))"

section \<open>Message formatter: status, duration, pass rate\<close>

text \<open>\<open>FullResult.status\<close>; \<open>RunOther\<close> stands for whatever reaches the \<open>default\<close> branches.\<close>

datatype RunStatus = RunPassed | RunFailed | RunTimedout | RunInterrupted | RunOther

text \<open>The JavaScript remainder \<open>a % b\<close> takes the sign of the dividend.\<close>

definition js_rem :: "int \<Rightarrow> int \<Rightarrow> int" where
  "js_rem a b = (if a < 0 then - ((- a) mod \<bar>b\<bar>) else a mod \<bar>b\<bar>)"

text \<open>
  \<open>formatDuration\<close>: \<open>Math.floor\<close> of a quotient of integers is the floor division \<open>div\<close>.
\<close>

definition formatDuration :: "int \<Rightarrow> jstring" where
  "formatDuration ms =
     (let seconds = ms div 1000;
          minutes = seconds div 60;
          remainingSeconds = js_rem seconds 60
      in if minutes > 0
         then show_int minutes @ lit ''m '' @ show_int remainingSeconds @ lit ''s''
         else show_int seconds @ lit ''s'')"

text \<open>The symbols are the code units of the literals in \<open>DiscordReporter.ts\<close>.\<close>

fun getStatusEmoji :: "RunStatus \<Rightarrow> jstring" where
  "getStatusEmoji RunPassed = [0x201A, 0xFA, 0xD6]"
| "getStatusEmoji RunFailed = [0x201A, 0xF9, 0xE5]"
| "getStatusEmoji RunTimedout = [0x201A, 0xE8, 0xB1, 0xD4, 0x220F, 0xE8]"
| "getStatusEmoji RunInterrupted = [0x201A, 0xF6, 0x2020, 0xD4, 0x220F, 0xE8]"
| "getStatusEmoji RunOther = [0x201A, 0xF9, 0xEC]"

fun getStatusText :: "RunStatus \<Rightarrow> jstring" where
  "getStatusText RunPassed = lit ''PASSED''"
| "getStatusText RunFailed = lit ''FAILED''"
| "getStatusText RunTimedout = lit ''TIMED OUT''"
| "getStatusText RunInterrupted = lit ''INTERRUPTED''"
| "getStatusText RunOther = lit ''UNKNOWN''"

fun getEmbedColor :: "RunStatus \<Rightarrow> nat" where
  "getEmbedColor RunPassed = 0x2ecc71"
| "getEmbedColor RunFailed = 0xe74c3c"
| "getEmbedColor RunTimedout = 0xf39c12"
| "getEmbedColor RunInterrupted = 0x9b59b6"
| "getEmbedColor RunOther = 0x95a5a6"

subsection \<open>Double-precision arithmetic of the pass rate\<close>

text \<open>
  \<open>getPassRate\<close> divides two counters, multiplies by 100 and calls \<open>toFixed(1)\<close>; all three
  steps work on IEEE 754 doubles. A non-negative finite double is a pair \<open>(m, e)\<close> that
  stands for \<open>m * 2 ^ e\<close>, with \<open>m < 2 ^ 53\<close> (or \<open>m = 2 ^ 53\<close> after a carry, which is the
  same value as \<open>(2 ^ 52, e + 1)\<close>); zero is \<open>(0, 0)\<close>. Each operation returns the double
  nearest to the exact result, ties to the even mantissa. The values here lie between
  \<open>2 ^ -53\<close> and \<open>2 ^ 60\<close>, far from the subnormal and the overflow range, which the model
  leaves out. The counters are exact doubles as long as they are below \<open>2 ^ 53\<close>.
\<close>

type_synonym double = "int \<times> int"

definition dval :: "double \<Rightarrow> rat" where
  "dval d = of_int (fst d) * 2 powi (snd d)"

text \<open>The number of binary digits of a positive integer.\<close>

function bit_length :: "int \<Rightarrow> int" where
  "bit_length n = (if n \<le> 0 then 0 else 1 + bit_length (n div 2))"
  by pat_completeness auto
termination
  by (relation "measure nat") auto

declare bit_length.simps [simp del]

text \<open>The integer nearest to \<open>num / den\<close>, a tie going to the even one.\<close>

definition round_half_even :: "int \<Rightarrow> int \<Rightarrow> int" where
  "round_half_even num den =
     (let q = num div den; r = num mod den
      in if 2 * r < den then q
         else if 2 * r > den then q + 1
         else if even q then q else q + 1)"

text \<open>\<open>floor_log2 a b\<close> is the integer \<open>k\<close> with \<open>2 ^ k \<le> a / b < 2 ^ (k + 1)\<close>.\<close>

definition floor_log2 :: "int \<Rightarrow> int \<Rightarrow> int" where
  "floor_log2 a b =
     (let k = bit_length a - bit_length b
      in if (if k \<ge> 0 then a \<ge> b * 2 ^ nat k else a * 2 ^ nat (- k) \<ge> b) then k else k - 1)"

text \<open>The double nearest to the exact quotient \<open>a / b\<close> of two positive integers.\<close>

definition nearest_double :: "int \<Rightarrow> int \<Rightarrow> double" where
  "nearest_double a b =
     (if a = 0 then (0, 0)
      else (let e = floor_log2 a b - 52
            in (if e \<ge> 0 then round_half_even a (b * 2 ^ nat e)
                else round_half_even (a * 2 ^ nat (- e)) b, e)))"

text \<open>\<open>p / t\<close> on two counters, and \<open>x * 100\<close> on a double.\<close>

definition js_div :: "nat \<Rightarrow> nat \<Rightarrow> double" where
  "js_div p t = nearest_double (int p) (int t)"

definition js_mul100 :: "double \<Rightarrow> double" where
  "js_mul100 x =
     (case x of (m, e) \<Rightarrow>
        if e \<ge> 0 then nearest_double (100 * m * 2 ^ nat e) 1
        else nearest_double (100 * m) (2 ^ nat (- e)))"

text \<open>
  \<open>x.toFixed(1)\<close> for \<open>0 \<le> x < 10 ^ 21\<close>: with \<open>n\<close> the integer for which \<open>n / 10 - x\<close> is
  closest to zero (the larger one of two), the digits of \<open>n\<close> with a point before the last.
\<close>

definition toFixed1_n :: "double \<Rightarrow> int" where
  "toFixed1_n x =
     (case x of (m, e) \<Rightarrow>
        if e \<ge> 0 then 10 * m * 2 ^ nat e
        else (20 * m + 2 ^ nat (- e)) div (2 * 2 ^ nat (- e)))"

definition show_tenths :: "int \<Rightarrow> jstring" where
  "show_tenths n = show_int (n div 10) @ lit ''.'' @ show_int (n mod 10)"

definition toFixed1 :: "double \<Rightarrow> jstring" where
  "toFixed1 x = show_tenths (toFixed1_n x)"

definition getPassRate :: "'a Reporter_scheme \<Rightarrow> jstring" where
  "getPassRate r =
     (if total (stats r) = 0 then lit ''0%''
      else (let rate = js_mul100 (js_div (passed (stats r)) (total (stats r)))
            in toFixed1 rate @ lit ''%''))"

section \<open>Message formatter: failed tests grouped by file\<close>

text \<open>
  \<open>testsByFile\<close> is a JavaScript \<open>Map\<close>, which iterates in insertion order and keeps the place
  of a key that is set again: an association list, \<open>map_of\<close> for \<open>get\<close> and \<open>map_set\<close> for
  \<open>set\<close>.
\<close>

fun map_set :: "('k \<times> 'v) list \<Rightarrow> 'k \<Rightarrow> 'v \<Rightarrow> ('k \<times> 'v) list" where
  "map_set [] k v = [(k, v)]"
| "map_set ((k', v') # kvs) k v =
     (if k' = k then (k, v) # kvs else (k', v') # map_set kvs k v)"

definition groupStep ::
  "(jstring \<times> jstring list) list \<Rightarrow> FailedTest \<Rightarrow> (jstring \<times> jstring list) list" where
  "groupStep testsByFile test =
     (let tests = (case map_of testsByFile (file test) of None \<Rightarrow> [] | Some ts \<Rightarrow> ts)
      in map_set testsByFile (file test) (tests @ [title test]))"

definition groupByFile :: "FailedTest list \<Rightarrow> (jstring \<times> jstring list) list" where
  "groupByFile fts = foldl groupStep [] fts"

text \<open>
  The two nested loops that write the groups. The state is the text so far and the counter
  \<open>testsShown\<close>; both loops leave when the counter has reached the cap. The reporters differ
  in the text of a file header (\<open>header\<close>), of a test line (\<open>line\<close>) and in what follows a
  group (\<open>trailer\<close>).
\<close>

fun showTests ::
  "nat \<Rightarrow> (jstring \<Rightarrow> jstring) \<Rightarrow> jstring list \<Rightarrow> jstring \<times> nat \<Rightarrow> jstring \<times> nat" where
  "showTests cap line [] (v, testsShown) = (v, testsShown)"
| "showTests cap line (testTitle # tests) (v, testsShown) =
     (if testsShown \<ge> cap then (v, testsShown)
      else showTests cap line tests (v @ line testTitle, testsShown + 1))"

fun showGroups ::
  "nat \<Rightarrow> (jstring \<Rightarrow> jstring) \<Rightarrow> (jstring \<Rightarrow> jstring) \<Rightarrow> jstring \<Rightarrow>
   (jstring \<times> jstring list) list \<Rightarrow> jstring \<times> nat \<Rightarrow> jstring \<times> nat" where
  "showGroups cap header line trailer [] (v, testsShown) = (v, testsShown)"
| "showGroups cap header line trailer ((f, tests) # groups) (v, testsShown) =
     (if testsShown \<ge> cap then (v, testsShown)
      else (case showTests cap line tests (v @ header f, testsShown) of
              (v', testsShown') \<Rightarrow>
                showGroups cap header line trailer groups (v' @ trailer, testsShown')))"

text \<open>
  The same two loops for a cap that is any JavaScript number, as the source compares it:
  a finite number (every double is a rational), an infinity or \<open>NaN\<close>. \<open>shown_ge\<close> is
  \<open>testsShown >= cap\<close> and \<open>count_gt\<close> is \<open>failedTests.length > cap\<close>; a comparison with
  \<open>NaN\<close> is false.
\<close>

datatype JsNumber = Num rat | PosInfinity | NegInfinity | NaN

definition shown_ge :: "nat \<Rightarrow> JsNumber \<Rightarrow> bool" where
  "shown_ge testsShown cap =
     (case cap of Num q \<Rightarrow> q \<le> of_nat testsShown | PosInfinity \<Rightarrow> False
      | NegInfinity \<Rightarrow> True | NaN \<Rightarrow> False)"

definition count_gt :: "nat \<Rightarrow> JsNumber \<Rightarrow> bool" where
  "count_gt n cap =
     (case cap of Num q \<Rightarrow> q < of_nat n | PosInfinity \<Rightarrow> False
      | NegInfinity \<Rightarrow> True | NaN \<Rightarrow> False)"

fun showTestsNum ::
  "JsNumber \<Rightarrow> (jstring \<Rightarrow> jstring) \<Rightarrow> jstring list \<Rightarrow> jstring \<times> nat \<Rightarrow> jstring \<times> nat" where
  "showTestsNum cap line [] (v, testsShown) = (v, testsShown)"
| "showTestsNum cap line (testTitle # tests) (v, testsShown) =
     (if shown_ge testsShown cap then (v, testsShown)
      else showTestsNum cap line tests (v @ line testTitle, testsShown + 1))"

fun showGroupsNum ::
  "JsNumber \<Rightarrow> (jstring \<Rightarrow> jstring) \<Rightarrow> (jstring \<Rightarrow> jstring) \<Rightarrow> jstring \<Rightarrow>
   (jstring \<times> jstring list) list \<Rightarrow> jstring \<times> nat \<Rightarrow> jstring \<times> nat" where
  "showGroupsNum cap header line trailer [] (v, testsShown) = (v, testsShown)"
| "showGroupsNum cap header line trailer ((f, tests) # groups) (v, testsShown) =
     (if shown_ge testsShown cap then (v, testsShown)
      else (case showTestsNum cap line tests (v @ header f, testsShown) of
              (v', testsShown') \<Rightarrow>
                showGroupsNum cap header line trailer groups (v' @ trailer, testsShown')))"

subsection \<open>Discord\<close>

definition discordHeader :: "jstring \<Rightarrow> jstring" where
  "discordHeader f = [0xF8FF, 0xFC, 0xEC, 0xD1] @ lit '' **'' @ f @ lit ''**'' @ [0x0A]"

definition discordLine :: "jstring \<Rightarrow> jstring" where
  "discordLine testTitle = [0x201A, 0xC4, 0xA2] @ lit '' '' @ testTitle @ [0x0A]"

definition discordNote :: "nat \<Rightarrow> jstring" where
  "discordNote remaining = lit ''_... and '' @ show_nat remaining @ lit '' more failed tests_''"

text \<open>\<open>failedTestsValue\<close> after the loops and the note, before the length check.\<close>

definition discordGrouped :: "'a Reporter_scheme \<Rightarrow> jstring" where
  "discordGrouped r =
     (let v = fst (showGroups (maxFailedTestsToShow r) discordHeader discordLine [0x0A]
                     (groupByFile (failedTests r)) ([], 0))
      in if length (failedTests r) > maxFailedTestsToShow r
         then v @ discordNote (length (failedTests r) - maxFailedTestsToShow r)
         else v)"

text \<open>The embed field value is at most 1024 code units long.\<close>

definition discordCapped :: "jstring \<Rightarrow> jstring" where
  "discordCapped v = (if length v > 1024 then take 1020 v @ lit ''...'' else v)"

text \<open>\<open>String.prototype.trim\<close> removes white space and line terminators at both ends.\<close>

definition isWhiteSpace :: "code_unit \<Rightarrow> bool" where
  "isWhiteSpace c \<longleftrightarrow>
     c \<in> {0x09, 0x0A, 0x0B, 0x0C, 0x0D, 0x20, 0xA0, 0x1680, 0x2028, 0x2029, 0x202F,
           0x205F, 0x3000, 0xFEFF} \<or> (0x2000 \<le> c \<and> c \<le> 0x200A)"

definition trim :: "jstring \<Rightarrow> jstring" where
  "trim s = rev (dropWhile isWhiteSpace (rev (dropWhile isWhiteSpace s)))"

definition discordFailedTestsValue :: "'a Reporter_scheme \<Rightarrow> jstring" where
  "discordFailedTestsValue r = trim (discordCapped (discordGrouped r))"

record EmbedField =
  field_name :: jstring
  field_value :: jstring
  field_inline :: bool

record DiscordEmbed =
  embed_title :: jstring
  embed_description :: "jstring option"
  embed_color :: nat
  embed_fields :: "EmbedField list"
  embed_footer :: "jstring option"
  embed_timestamp :: "jstring option"

record DiscordWebhookPayload =
  content :: "jstring option"
  embeds :: "DiscordEmbed list"

fun join :: "jstring \<Rightarrow> jstring list \<Rightarrow> jstring" where
  "join sep [] = []"
| "join sep [x] = x"
| "join sep (x # y # ys) = x @ sep @ join sep (y # ys)"

text \<open>\<open>.filter(Boolean)\<close> on strings and \<open>null\<close>: \<open>null\<close> and the empty string go.\<close>

definition filterBoolean :: "jstring option list \<Rightarrow> jstring list" where
  "filterBoolean xs = filter (\<lambda>s. s \<noteq> []) (List.map_filter id xs)"

definition discordResults :: "'a Reporter_scheme \<Rightarrow> jstring" where
  "discordResults r =
     join [0x0A] (filterBoolean
       [Some (lit ''**Total:** '' @ show_nat (total (stats r))),
        Some (lit ''**Passed:** '' @ show_nat (passed (stats r)) @ lit '' '' @
              [0x201A, 0xFA, 0xD6]),
        Some (lit ''**Failed:** '' @ show_nat (failed (stats r)) @ lit '' '' @
              [0x201A, 0xF9, 0xE5]),
        Some (lit ''**Skipped:** '' @ show_nat (skipped (stats r)) @ lit '' '' @
              [0x201A, 0xE8, 0x2260, 0xD4, 0x220F, 0xE8]),
        (if flaky (stats r) > 0
         then Some (lit ''**Flaky:** '' @ show_nat (flaky (stats r)) @ lit '' '' @
                    [0xF8FF, 0xFC, 0xEE, 0xD1])
         else None),
        Some (lit ''**Pass Rate:** '' @ getPassRate r)])"

text \<open>
  \<open>buildPayload\<close>. \<open>now\<close> is the reading of \<open>Date.now()\<close> when the payload is built and
  \<open>isoNow\<close> the text of \<open>new Date().toISOString()\<close>.
\<close>

definition buildPayload ::
  "'a Reporter_scheme \<Rightarrow> RunStatus \<Rightarrow> int \<Rightarrow> jstring \<Rightarrow> DiscordWebhookPayload" where
  "buildPayload r result now isoNow =
     (let statusEmoji = getStatusEmoji result;
          statusText = getStatusText result;
          totalDuration = formatDuration (now - startTime r);
          embedColor = getEmbedColor result;
          fields =
            [\<lparr>field_name = [0xF8FF, 0xFC, 0xEC, 0xB6] @ lit '' Project'',
              field_value = projectName r, field_inline = True\<rparr>,
             \<lparr>field_name = [0xF8FF, 0xFC, 0xE5, 0xEA] @ lit '' Environment'',
              field_value = or_else (Some (baseUrl r)) (lit ''N/A''), field_inline = True\<rparr>,
             \<lparr>field_name = [0x201A, 0xE8, 0xB1, 0xD4, 0x220F, 0xE8] @ lit '' Duration'',
              field_value = totalDuration, field_inline = True\<rparr>,
             \<lparr>field_name = [0xF8FF, 0xFC, 0xEC, 0xE4] @ lit '' Results'',
              field_value = discordResults r, field_inline = False\<rparr>];
          fields' =
            (if includeFailedTests r \<and> length (failedTests r) > 0
             then fields @
               [\<lparr>field_name = [0x201A, 0xF9, 0xE5] @ lit '' Failed Tests'',
                 field_value = discordFailedTestsValue r, field_inline = False\<rparr>]
             else fields)
      in \<lparr>content = None,
          embeds =
            [\<lparr>embed_title = statusEmoji @ lit '' Test Execution: '' @ statusText,
              embed_description = None,
              embed_color = embedColor,
              embed_fields = fields',
              embed_footer = Some (lit ''Playwright Test Reporter''),
              embed_timestamp = Some isoNow\<rparr>]\<rparr>)"

subsection \<open>Telegram\<close>

text \<open>\<open>text.replace(/c/g, rep)\<close> for a single character \<open>c\<close> and a replacement without \<open>$\<close>.\<close>

fun replaceAll :: "code_unit \<Rightarrow> jstring \<Rightarrow> jstring \<Rightarrow> jstring" where
  "replaceAll c rep [] = []"
| "replaceAll c rep (x # xs) =
     (if x = c then rep @ replaceAll c rep xs else x # replaceAll c rep xs)"

definition escapeHtml :: "jstring \<Rightarrow> jstring" where
  "escapeHtml text =
     replaceAll 0x3E (lit ''&gt;'') (replaceAll 0x3C (lit ''&lt;'')
       (replaceAll 0x26 (lit ''&amp;'') text))"

definition telegramHeader :: "jstring \<Rightarrow> jstring" where
  "telegramHeader f =
     [0x0A] @ [0xF0, 0x178, 0x201C, 0x201E] @ lit '' <b>'' @ escapeHtml f @ lit ''</b>'' @ [0x0A]"

definition telegramLine :: "jstring \<Rightarrow> jstring" where
  "telegramLine testTitle = [0xE2, 0x20AC, 0xA2] @ lit '' '' @ escapeHtml testTitle @ [0x0A]"

definition telegramNote :: "nat \<Rightarrow> jstring" where
  "telegramNote remaining =
     [0x0A] @ lit ''<i>... and '' @ show_nat remaining @ lit '' more failed tests</i>''"

text \<open>What \<open>buildMessage\<close> appends for the failed tests, after its heading line.\<close>

definition telegramGrouped :: "'a Reporter_scheme \<Rightarrow> jstring" where
  "telegramGrouped r =
     (let v = fst (showGroups (maxFailedTestsToShow r) telegramHeader telegramLine []
                     (groupByFile (failedTests r)) ([], 0))
      in if length (failedTests r) > maxFailedTestsToShow r
         then v @ telegramNote (length (failedTests r) - maxFailedTestsToShow r)
         else v)"

definition telegramFailedTests :: "'a Reporter_scheme \<Rightarrow> jstring" where
  "telegramFailedTests r =
     (if includeFailedTests r \<and> length (failedTests r) > 0
      then [0x0A] @ lit ''<b>Failed Tests:</b>'' @ [0x0A] @ telegramGrouped r
      else [])"

text \<open>
  \<open>buildMessage\<close>. \<open>now\<close> is the reading of \<open>Date.now()\<close> and \<open>timestamp\<close> the text of
  \<open>new Date().toLocaleString("en-US", ...)\<close>.
\<close>

definition buildMessage :: "'a Reporter_scheme \<Rightarrow> RunStatus \<Rightarrow> int \<Rightarrow> jstring \<Rightarrow> jstring" where
  "buildMessage r result now timestamp =
     (let statusText = getStatusText result;
          totalDuration = formatDuration (now - startTime r)
      in lit ''<b>Test Execution: '' @ statusText @ lit ''</b>'' @ [0x0A, 0x0A] @
         lit ''<b>Project:</b> '' @ escapeHtml (projectName r) @ [0x0A] @
         lit ''<b>Environment:</b> '' @ escapeHtml (baseUrl r) @ [0x0A] @
         lit ''<b>Time:</b> '' @ escapeHtml timestamp @ lit '' UTC'' @ [0x0A] @
         lit ''<b>Duration:</b> '' @ totalDuration @ [0x0A, 0x0A] @
         lit ''<b>Results:</b>'' @ [0x0A] @
         lit ''Total: '' @ show_nat (total (stats r)) @ [0x0A] @
         lit ''Passed: '' @ show_nat (passed (stats r)) @ [0x0A] @
         lit ''Failed: '' @ show_nat (failed (stats r)) @ [0x0A] @
         lit ''Skipped: '' @ show_nat (skipped (stats r)) @ [0x0A] @
         (if flaky (stats r) > 0 then lit ''Flaky: '' @ show_nat (flaky (stats r)) @ [0x0A]
          else []) @
         lit ''Pass Rate: '' @ getPassRate r @ [0x0A] @
         telegramFailedTests r)"

section \<open>Delivery\<close>

text \<open>
  The reporters act on the world through the console, one \<open>fetch\<close> and, for Discord, a timer.
  A run of \<open>onEnd\<close> returns the list of these effects in order, and either \<open>Inr ()\<close> when it
  returns normally or \<open>Inl e\<close> when the exception \<open>e\<close> leaves it. The network's answer is an
  input: \<open>fetch\<close> rejects with an error, or a response arrives whose body can be read or
  fails to be read (for Telegram the body read is \<open>response.json()\<close>, and the text is what
  \<open>JSON.stringify\<close> makes of it). An error is known by its text, which is what the
  \<open>catch\<close> blocks print.
\<close>

datatype Request =
  DiscordPost jstring DiscordWebhookPayload
| TelegramPost jstring jstring jstring

datatype Effect =
  ConsoleLog jstring
| ConsoleError jstring
| Fetch Request
| Delay nat

record Response =
  http_status :: nat
  http_body :: "jstring + jstring"

datatype FetchOutcome = Rejected jstring | Responded Response

text \<open>\<open>response.ok\<close>: the status is in the range 200 to 299.\<close>

definition response_ok :: "Response \<Rightarrow> bool" where
  "response_ok resp \<longleftrightarrow> 200 \<le> http_status resp \<and> http_status resp \<le> 299"

definition discordIsConfigured :: "DiscordReporter \<Rightarrow> bool" where
  "discordIsConfigured r \<longleftrightarrow> webhookUrl r \<noteq> []"

definition telegramIsConfigured :: "TelegramReporter \<Rightarrow> bool" where
  "telegramIsConfigured r \<longleftrightarrow> botToken r \<noteq> [] \<and> chatId r \<noteq> []"

text \<open>The body of the \<open>try\<close> block of \<open>sendDiscordMessage\<close>.\<close>

definition discordTry ::
  "DiscordReporter \<Rightarrow> DiscordWebhookPayload \<Rightarrow> FetchOutcome \<Rightarrow> (jstring + unit) \<times> Effect list" where
  "discordTry r payload outcome =
     (let fx = [Fetch (DiscordPost (webhookUrl r) payload)]
      in case outcome of
           Rejected e \<Rightarrow> (Inl e, fx)
         | Responded resp \<Rightarrow>
             if \<not> response_ok resp then
               (case http_body resp of
                  Inl e \<Rightarrow> (Inl e, fx)
                | Inr errorText \<Rightarrow>
                    (Inr (), fx @
                       [ConsoleError (lit ''[Discord Reporter] Failed to send message - Status: '' @
                          show_nat (http_status resp) @ lit '', Error: '' @ errorText),
                        Delay 200]))
             else
               (Inr (), fx @
                  [ConsoleLog (lit ''[Discord Reporter] Notification sent successfully''),
                   Delay 200]))"

definition sendDiscordMessage ::
  "DiscordReporter \<Rightarrow> DiscordWebhookPayload \<Rightarrow> FetchOutcome \<Rightarrow> (jstring + unit) \<times> Effect list" where
  "sendDiscordMessage r payload outcome =
     (case discordTry r payload outcome of
        (Inl e, fx) \<Rightarrow>
          (Inr (), fx @ [ConsoleError (lit ''[Discord Reporter] Error sending message - '' @ e)])
      | (Inr u, fx) \<Rightarrow> (Inr u, fx))"

definition discordOnEnd ::
  "DiscordReporter \<Rightarrow> RunStatus \<Rightarrow> int \<Rightarrow> jstring \<Rightarrow> FetchOutcome \<Rightarrow>
   (jstring + unit) \<times> Effect list" where
  "discordOnEnd r result now isoNow outcome =
     (if \<not> enabled r then (Inr (), [])
      else if \<not> discordIsConfigured r then
        (Inr (), [ConsoleLog
           (lit ''[Discord Reporter] Skipped - missing DISCORD_WEBHOOK_URL in .env file'')])
      else sendDiscordMessage r (buildPayload r result now isoNow) outcome)"

text \<open>The body of the \<open>try\<close> block of \<open>sendTelegramMessage\<close>.\<close>

definition telegramTry ::
  "TelegramReporter \<Rightarrow> jstring \<Rightarrow> FetchOutcome \<Rightarrow> (jstring + unit) \<times> Effect list" where
  "telegramTry r msg outcome =
     (let url = lit ''https://api.telegram.org/bot'' @ botToken r @ lit ''/sendMessage'';
          fx = [Fetch (TelegramPost url (chatId r) msg)]
      in case outcome of
           Rejected e \<Rightarrow> (Inl e, fx)
         | Responded resp \<Rightarrow>
             if \<not> response_ok resp then
               (case http_body resp of
                  Inl e \<Rightarrow> (Inl e, fx)
                | Inr errorData \<Rightarrow>
                    (Inr (), fx @
                       [ConsoleError (lit ''[Telegram Reporter] Failed to send message - '' @
                          errorData)]))
             else
               (Inr (), fx @
                  [ConsoleLog (lit ''[Telegram Reporter] Notification sent successfully'')]))"

definition sendTelegramMessage ::
  "TelegramReporter \<Rightarrow> jstring \<Rightarrow> FetchOutcome \<Rightarrow> (jstring + unit) \<times> Effect list" where
  "sendTelegramMessage r msg outcome =
     (case telegramTry r msg outcome of
        (Inl e, fx) \<Rightarrow>
          (Inr (), fx @ [ConsoleError (lit ''[Telegram Reporter] Error sending message - '' @ e)])
      | (Inr u, fx) \<Rightarrow> (Inr u, fx))"

definition telegramOnEnd ::
  "TelegramReporter \<Rightarrow> RunStatus \<Rightarrow> int \<Rightarrow> jstring \<Rightarrow> FetchOutcome \<Rightarrow>
   (jstring + unit) \<times> Effect list" where
  "telegramOnEnd r result now timestamp outcome =
     (if \<not> enabled r then (Inr (), [])
      else if \<not> telegramIsConfigured r then
        (Inr (), [ConsoleLog
           (lit ''[Telegram Reporter] Skipped - missing TELEGRAM_BOT_TOKEN or TELEGRAM_CHAT_ID in .env file'')])
      else sendTelegramMessage r (buildMessage r result now timestamp) outcome)"

definition isFetch :: "Effect \<Rightarrow> bool" where
  "isFetch fx = (case fx of Fetch _ \<Rightarrow> True | _ \<Rightarrow> False)"

definition isConsoleError :: "Effect \<Rightarrow> bool" where
  "isConsoleError fx = (case fx of ConsoleError _ \<Rightarrow> True | _ \<Rightarrow> False)"

section \<open>Specification-level descriptions\<close>

text \<open>
  The escaping as the specification words it: each character on its own, the three special
  ones replaced by their entity and every other one kept.
\<close>

definition escapeChar_spec :: "code_unit \<Rightarrow> jstring" where
  "escapeChar_spec c =
     (if c = 0x26 then lit ''&amp;''
      else if c = 0x3C then lit ''&lt;''
      else if c = 0x3E then lit ''&gt;''
      else [c])"

text \<open>
  Notions for stating what \<open>onEnd\<close> does: a delivery that fails (the request is rejected or
  the response is not 2xx), the log lines of a skipped run, and the Duration field of a
  payload (the third field of its embed).
\<close>

definition delivery_failed :: "FetchOutcome \<Rightarrow> bool" where
  "delivery_failed outcome =
     (case outcome of Rejected _ \<Rightarrow> True | Responded resp \<Rightarrow> \<not> response_ok resp)"

definition discordSkipped :: "Effect list" where
  "discordSkipped = [ConsoleLog
     (lit ''[Discord Reporter] Skipped - missing DISCORD_WEBHOOK_URL in .env file'')]"

definition telegramSkipped :: "Effect list" where
  "telegramSkipped = [ConsoleLog
     (lit ''[Telegram Reporter] Skipped - missing TELEGRAM_BOT_TOKEN or TELEGRAM_CHAT_ID in .env file'')]"

definition durationField :: "DiscordWebhookPayload \<Rightarrow> jstring" where
  "durationField payload = field_value (embed_fields (hd (embeds payload)) ! 2)"

text \<open>
  The grouping as the specification words it: the files in the order in which each is first
  seen in the failure list, each with the titles of its failures in the order recorded.
\<close>

fun firstSeen :: "'a list \<Rightarrow> 'a list" where
  "firstSeen [] = []"
| "firstSeen (x # xs) = x # filter (\<lambda>y. y \<noteq> x) (firstSeen xs)"

definition groupByFile_spec :: "FailedTest list \<Rightarrow> (jstring \<times> jstring list) list" where
  "groupByFile_spec fts =
     map (\<lambda>f. (f, map title (filter (\<lambda>t. file t = f) fts))) (firstSeen (map file fts))"

text \<open>
  What the two loops show of a list of groups when \<open>k\<close> test lines may still be written:
  the groups in their order, each with its first titles, until \<open>k\<close> lines are used up.
  \<open>renderGroup\<close> is the text of one shown group and \<open>testLines\<close> counts the test lines of a
  list of groups.
\<close>

fun shownGroups :: "nat \<Rightarrow> (jstring \<times> jstring list) list \<Rightarrow> (jstring \<times> jstring list) list" where
  "shownGroups k [] = []"
| "shownGroups k ((f, tests) # groups) =
     (if k = 0 then [] else (f, take k tests) # shownGroups (k - length tests) groups)"

definition renderGroup ::
  "(jstring \<Rightarrow> jstring) \<Rightarrow> (jstring \<Rightarrow> jstring) \<Rightarrow> jstring \<Rightarrow> jstring \<times> jstring list \<Rightarrow> jstring" where
  "renderGroup header line trailer g = header (fst g) @ concat (map line (snd g)) @ trailer"

definition testLines :: "(jstring \<times> jstring list) list \<Rightarrow> nat" where
  "testLines groups = sum_list (map (\<lambda>g. length (snd g)) groups)"

section \<open>Sample inputs\<close>

definition noOptions :: ReporterOptions where
  "noOptions = \<lparr>opt_enabled = None, opt_includeFailedTests = None,
                 opt_maxFailedTestsToShow = None\<rparr>"

definition emptyEnv :: ProcessEnv where
  "emptyEnv = \<lparr>DISCORD_WEBHOOK_URL = None, TELEGRAM_BOT_TOKEN = None,
                TELEGRAM_CHAT_ID = None, BASE_URL = None\<rparr>"

definition sampleDiscord :: DiscordReporter where
  "sampleDiscord = newDiscordReporter (ReporterOptions.extend noOptions
     (DiscordConfig.fields None)) emptyEnv"

definition sampleTelegram :: TelegramReporter where
  "sampleTelegram = newTelegramReporter (ReporterOptions.extend noOptions
     (TelegramConfig.fields None None)) emptyEnv"

definition sampleTest :: "string \<Rightarrow> string \<Rightarrow> TestCase" where
  "sampleTest t f = \<lparr>test_title = lit t, location_file = lit f\<rparr>"

definition sampleResult :: "TestStatus \<Rightarrow> nat \<Rightarrow> TestError list \<Rightarrow> TestResult" where
  "sampleResult s k errs = \<lparr>status = s, duration = 120, retry = k, errors = errs\<rparr>"

definition sampleEvents :: "(TestCase \<times> TestResult) list" where
  "sampleEvents =
     [(sampleTest ''logs in'' ''tests/auth/login.spec.ts'', sampleResult Passed 0 []),
      (sampleTest ''creates article'' ''tests/article.spec.ts'',
         sampleResult Failed 0 [\<lparr>message = Some (lit ''expected 200'')\<rparr>]),
      (sampleTest ''reads feed'' ''tests/feed.spec.ts'', sampleResult Passed 1 []),
      (sampleTest ''deletes article'' ''tests/article.spec.ts'', sampleResult TimedOut 1 []),
      (sampleTest ''tags'' ''tests/tags.spec.ts'', sampleResult Skipped 0 [])]"

definition liveDiscord :: DiscordReporter where
  "liveDiscord = sampleDiscord\<lparr>enabled := True, webhookUrl := lit ''https://discord.test/hook''\<rparr>"

definition liveTelegram :: TelegramReporter where
  "liveTelegram = sampleTelegram\<lparr>enabled := True, botToken := lit ''12:ab'', chatId := lit ''7''\<rparr>"

definition sevenEvents :: "(TestCase \<times> TestResult) list" where
  "sevenEvents =
     [(sampleTest ''t1'' ''tests/a.spec.ts'', sampleResult Failed 0 []),
      (sampleTest ''t2'' ''tests/b.spec.ts'', sampleResult Failed 0 []),
      (sampleTest ''t3'' ''tests/a.spec.ts'', sampleResult TimedOut 0 []),
      (sampleTest ''t4'' ''tests/b.spec.ts'', sampleResult Failed 0 []),
      (sampleTest ''t5'' ''tests/a.spec.ts'', sampleResult Failed 0 []),
      (sampleTest ''t6'' ''tests/b.spec.ts'', sampleResult Failed 0 []),
      (sampleTest ''t7'' ''tests/a.spec.ts'', sampleResult Failed 0 [])]"

definition sevenDiscord :: DiscordReporter where
  "sevenDiscord = recordAll sampleDiscord sevenEvents"

definition sevenTelegram :: TelegramReporter where
  "sevenTelegram = recordAll sampleTelegram sevenEvents"

definition longEvents :: "(TestCase \<times> TestResult) list" where
  "longEvents =
     [(\<lparr>test_title = replicate 1100 0x61, location_file = lit ''tests/a.spec.ts''\<rparr>,
       sampleResult Failed 0 []),
      (sampleTest ''t2'' ''tests/a.spec.ts'', sampleResult Failed 0 [])]"

definition longDiscord :: DiscordReporter where
  "longDiscord = recordAll (sampleDiscord\<lparr>maxFailedTestsToShow := 1\<rparr>) longEvents"

definition longTelegram :: TelegramReporter where
  "longTelegram = recordAll sampleTelegram longEvents"

definition ratedDiscord :: DiscordReporter where
  "ratedDiscord = sampleDiscord\<lparr>stats := initialStats\<lparr>total := 25, passed := 23, failed := 2\<rparr>\<rparr>"

section \<open>Properties of the collector\<close>

lemma onTestEnd_inv:
  "collector_inv r \<Longrightarrow> counted_status (status res) \<Longrightarrow> collector_inv (onTestEnd r t res)"
  by (cases "status res") (auto simp: collector_inv_def counted_status_def onTestEnd_def Let_def)

lemma recordAll_snoc:
  "recordAll r (evs @ [(t, res)]) = onTestEnd (recordAll r evs) t res"
  by (simp add: recordAll_def)

lemma recordAll_inv:
  "collector_inv r \<Longrightarrow> \<forall>ev \<in> set evs. counted_status (status (snd ev)) \<Longrightarrow>
   collector_inv (recordAll r evs)"
proof (induction evs rule: rev_induct)
  case Nil
  then show ?case by (simp add: recordAll_def)
next
  case (snoc ev evs)
  obtain t res where ev: "ev = (t, res)" by (cases ev)
  from snoc have "collector_inv (recordAll r evs)" and "counted_status (status res)"
    by (simp_all add: ev)
  then show ?case
    unfolding ev recordAll_snoc by (rule onTestEnd_inv)
qed

lemma newDiscordReporter_inv: "collector_inv (newDiscordReporter options env)"
  by (simp add: collector_inv_def newDiscordReporter_def initialStats_def)

lemma newTelegramReporter_inv: "collector_inv (newTelegramReporter options env)"
  by (simp add: collector_inv_def newTelegramReporter_def initialStats_def)

lemma onBegin_inv: "collector_inv r \<Longrightarrow> collector_inv (onBegin r now projects env)"
  by (simp add: collector_inv_def onBegin_def)

text \<open>
  Claim C1. Start from a freshly constructed reporter of either class, after \<open>onBegin\<close>, and
  record any sequence of results whose statuses are passed, failed, timedOut or skipped.
  After every prefix of the sequence the total equals passed + failed + skipped, the list of
  failed tests is as long as the failed counter says, and flaky is at most passed.
\<close>

theorem C1_collector_invariant:
  assumes "\<forall>ev \<in> set evs. counted_status (status (snd ev))"
    and "n \<le> length evs"
  shows "collector_inv
           (recordAll (onBegin (newDiscordReporter dopts env) now projects env) (take n evs)) \<and>
         collector_inv
           (recordAll (onBegin (newTelegramReporter topts env) now projects env) (take n evs))"
proof -
  have "\<forall>ev \<in> set (take n evs). counted_status (status (snd ev))"
    using assms(1) by (meson in_set_takeD)
  then show ?thesis
    by (simp add: recordAll_inv onBegin_inv newDiscordReporter_inv newTelegramReporter_inv)
qed

theorem C1_collector_invariant_witness:
  "list_all (\<lambda>ev. counted_status (status (snd ev))) sampleEvents \<and>
   4 \<le> length sampleEvents \<and>
   collector_inv (recordAll (onBegin sampleDiscord 1000 [] emptyEnv) (take 4 sampleEvents)) \<and>
   collector_inv (recordAll (onBegin sampleTelegram 1000 [] emptyEnv) (take 4 sampleEvents)) \<and>
   failed (stats (recordAll (onBegin sampleDiscord 1000 [] emptyEnv) (take 4 sampleEvents))) = 2"
proof -
  have h1: "\<forall>ev \<in> set sampleEvents. counted_status (status (snd ev))"
    by (simp add: sampleEvents_def sampleResult_def counted_status_def)
  have h2: "4 \<le> length sampleEvents"
    by (simp add: sampleEvents_def)
  have "failed (stats (recordAll (onBegin sampleDiscord 1000 [] emptyEnv) (take 4 sampleEvents))) = 2"
    by (simp add: sampleEvents_def sampleResult_def recordAll_def onTestEnd_def onBegin_def
        sampleDiscord_def newDiscordReporter_def initialStats_def)
  with h1 h2 C1_collector_invariant [OF h1 h2, of _ emptyEnv 1000 "[]"] show ?thesis
    unfolding sampleDiscord_def sampleTelegram_def list_all_iff by blast
qed

section \<open>Properties of the recorded error message\<close>

lemma onTestEnd_failed_record:
  "status res = Failed \<or> status res = TimedOut \<Longrightarrow>
   failedTests (onTestEnd r t res) =
     failedTests r @ [\<lparr>title = test_title t, file = fileName (location_file t),
                        error = extractErrorMessage res\<rparr>]"
  by (auto simp: onTestEnd_def Let_def)

text \<open>
  Claim C3, as the code has it. For a failed or timed-out result the record appended to the
  failure list has the error text \<open>Unknown error\<close> when the result carries no error object at
  all. When there is a first error object whose message is missing (or empty), the recorded
  error text is the empty string: \<open>extractErrorMessage\<close> falls back to \<open>""\<close> there.
\<close>

theorem C3_unknown_error_default:
  assumes "status res = Failed \<or> status res = TimedOut"
  shows "(errors res = [] \<longrightarrow>
            error (last (failedTests (onTestEnd r t res))) = lit ''Unknown error'') \<and>
         (errors res \<noteq> [] \<and> message (hd (errors res)) \<in> {None, Some []} \<longrightarrow>
            error (last (failedTests (onTestEnd r t res))) = [])"
  using assms
  by (cases "errors res")
     (auto simp: onTestEnd_failed_record extractErrorMessage_def or_else_def)

theorem C3_unknown_error_default_witness:
  "(status (sampleResult TimedOut 0 []) = Failed \<or>
    status (sampleResult TimedOut 0 []) = TimedOut) \<and>
   errors (sampleResult TimedOut 0 []) = [] \<and>
   error (last (failedTests (onTestEnd sampleDiscord
      (sampleTest ''deletes article'' ''tests/article.spec.ts'')
      (sampleResult TimedOut 0 [])))) = lit ''Unknown error''"
  using C3_unknown_error_default [of "sampleResult TimedOut 0 []" sampleDiscord
      "sampleTest ''deletes article'' ''tests/article.spec.ts''"]
  by (simp add: sampleResult_def)

text \<open>
  Claim C3 as stated fails: a failed test whose first error object has no message is
  recorded with the empty string, not with \<open>Unknown error\<close>.
\<close>

theorem C3_missing_message_counterexample:
  "status (sampleResult Failed 0 [\<lparr>message = None\<rparr>]) = Failed \<and>
   message (hd (errors (sampleResult Failed 0 [\<lparr>message = None\<rparr>]))) = None \<and>
   error (last (failedTests (onTestEnd sampleDiscord
      (sampleTest ''creates article'' ''tests/article.spec.ts'')
      (sampleResult Failed 0 [\<lparr>message = None\<rparr>])))) \<noteq> lit ''Unknown error''"
  by (simp add: sampleResult_def onTestEnd_def extractErrorMessage_def or_else_def lit_def)

text \<open>
  Claim C5. For a failed or timed-out result whose first error has the message \<open>m\<close>, the
  recorded error text is the first 150 code units of \<open>m\<close> followed by \<open>...\<close> when \<open>m\<close> is
  longer than 150, and \<open>m\<close> itself otherwise.
\<close>

theorem C5_error_truncation:
  assumes "status res = Failed \<or> status res = TimedOut"
    and "errors res = e # es" and "message e = Some m"
  shows "(length m > 150 \<longrightarrow>
            error (last (failedTests (onTestEnd r t res))) = take 150 m @ lit ''...'') \<and>
         (length m \<le> 150 \<longrightarrow> error (last (failedTests (onTestEnd r t res))) = m)"
  using assms
  by (auto simp: onTestEnd_failed_record extractErrorMessage_def or_else_def)

theorem C5_error_truncation_witness:
  "(let res = sampleResult Failed 0 [\<lparr>message = Some (replicate 200 0x61)\<rparr>];
        res' = sampleResult Failed 0 [\<lparr>message = Some (lit ''expected 200'')\<rparr>];
        t = sampleTest ''creates article'' ''tests/article.spec.ts''
    in (status res = Failed \<or> status res = TimedOut) \<and>
       errors res = [\<lparr>message = Some (replicate 200 0x61)\<rparr>] \<and>
       error (last (failedTests (onTestEnd sampleDiscord t res))) =
         replicate 150 0x61 @ lit ''...'' \<and>
       error (last (failedTests (onTestEnd sampleTelegram t res'))) = lit ''expected 200'')"
  using C5_error_truncation [of "sampleResult Failed 0 [\<lparr>message = Some (replicate 200 0x61)\<rparr>]"
      "\<lparr>message = Some (replicate 200 0x61)\<rparr>" "[]" "replicate 200 0x61" sampleDiscord
      "sampleTest ''creates article'' ''tests/article.spec.ts''"]
    C5_error_truncation [of "sampleResult Failed 0 [\<lparr>message = Some (lit ''expected 200'')\<rparr>]"
      "\<lparr>message = Some (lit ''expected 200'')\<rparr>" "[]" "lit ''expected 200''" sampleTelegram
      "sampleTest ''creates article'' ''tests/article.spec.ts''"]
  by (simp add: sampleResult_def Let_def lit_def)

section \<open>Properties of the Telegram escaping\<close>

lemma replaceAll_append:
  "replaceAll c rep (xs @ ys) = replaceAll c rep xs @ replaceAll c rep ys"
  by (induction xs) auto

lemma escapeHtml_append: "escapeHtml (xs @ ys) = escapeHtml xs @ escapeHtml ys"
  by (simp add: escapeHtml_def replaceAll_append)

lemma escapeHtml_single: "escapeHtml [c] = escapeChar_spec c"
  by (simp add: escapeHtml_def escapeChar_spec_def lit_def)

lemma escapeHtml_Cons: "escapeHtml (c # cs) = escapeChar_spec c @ escapeHtml cs"
  using escapeHtml_append [of "[c]" cs] by (simp add: escapeHtml_single)

lemma escapeHtml_Nil: "escapeHtml [] = []"
  by (simp add: escapeHtml_def)

lemma escapeHtml_concat: "escapeHtml s = concat (map escapeChar_spec s)"
  by (induction s) (simp_all add: escapeHtml_Nil escapeHtml_Cons)

text \<open>
  Claim C8. The three replacement passes of \<open>escapeHtml\<close> together replace every \<open>&\<close> by
  \<open>&amp;\<close>, every \<open><\<close> by \<open>&lt;\<close> and every \<open>>\<close> by \<open>&gt;\<close>, and leave every other
  character as it is, in place; the input \<open><b>x & y</b>\<close> becomes
  \<open>&lt;b&gt;x &amp; y&lt;/b&gt;\<close>.
\<close>

theorem C8_escapeHtml:
  "escapeHtml s = concat (map escapeChar_spec s) \<and>
   escapeHtml (lit ''<b>x & y</b>'') = lit ''&lt;b&gt;x &amp; y&lt;/b&gt;''"
proof
  show "escapeHtml s = concat (map escapeChar_spec s)" by (rule escapeHtml_concat)
  show "escapeHtml (lit ''<b>x & y</b>'') = lit ''&lt;b&gt;x &amp; y&lt;/b&gt;''"
    by (simp add: escapeHtml_def lit_def)
qed

section \<open>Properties of the delivery\<close>

lemma discordOnEnd_returns: "fst (discordOnEnd r res now isoNow out) = Inr ()"
  by (auto simp: discordOnEnd_def sendDiscordMessage_def discordTry_def Let_def
      split: FetchOutcome.splits sum.splits prod.splits)

lemma telegramOnEnd_returns: "fst (telegramOnEnd r res now ts out) = Inr ()"
  by (auto simp: telegramOnEnd_def sendTelegramMessage_def telegramTry_def Let_def
      split: FetchOutcome.splits sum.splits prod.splits)

lemma discordOnEnd_unconfigured:
  "\<not> discordIsConfigured r \<Longrightarrow>
   snd (discordOnEnd r res now isoNow out) = (if enabled r then discordSkipped else [])"
  by (simp add: discordOnEnd_def discordSkipped_def)

lemma telegramOnEnd_unconfigured:
  "\<not> telegramIsConfigured r \<Longrightarrow>
   snd (telegramOnEnd r res now ts out) = (if enabled r then telegramSkipped else [])"
  by (simp add: telegramOnEnd_def telegramSkipped_def)

lemma discordOnEnd_failed:
  "enabled r \<Longrightarrow> discordIsConfigured r \<Longrightarrow> delivery_failed out \<Longrightarrow>
   list_ex isConsoleError (snd (discordOnEnd r res now isoNow out)) \<and>
   length (filter isFetch (snd (discordOnEnd r res now isoNow out))) = 1"
  by (auto simp: discordOnEnd_def sendDiscordMessage_def discordTry_def delivery_failed_def
      isConsoleError_def isFetch_def Let_def split: FetchOutcome.splits sum.splits)

lemma telegramOnEnd_failed:
  "enabled r \<Longrightarrow> telegramIsConfigured r \<Longrightarrow> delivery_failed out \<Longrightarrow>
   list_ex isConsoleError (snd (telegramOnEnd r res now ts out)) \<and>
   length (filter isFetch (snd (telegramOnEnd r res now ts out))) = 1"
  by (auto simp: telegramOnEnd_def sendTelegramMessage_def telegramTry_def delivery_failed_def
      isConsoleError_def isFetch_def Let_def split: FetchOutcome.splits sum.splits)
text \<open>
  Claim C9, as the code has it. \<open>onEnd\<close> of either reporter returns normally whatever the
  network does. Without credentials it makes no request and, when the reporter is enabled,
  logs the one line that says the run is skipped; a reporter that is not enabled returns at
  once and logs nothing. With the reporter enabled and configured, a rejected request or a
  response that is not 2xx leaves one request made and an error on the console.
\<close>

theorem C9_delivery_never_throws:
  "fst (discordOnEnd r res now isoNow out) = Inr () \<and>
   fst (telegramOnEnd r' res now ts out) = Inr () \<and>
   (\<not> discordIsConfigured r \<longrightarrow>
      snd (discordOnEnd r res now isoNow out) = (if enabled r then discordSkipped else [])) \<and>
   (\<not> telegramIsConfigured r' \<longrightarrow>
      snd (telegramOnEnd r' res now ts out) = (if enabled r' then telegramSkipped else [])) \<and>
   (enabled r \<and> discordIsConfigured r \<and> delivery_failed out \<longrightarrow>
      list_ex isConsoleError (snd (discordOnEnd r res now isoNow out)) \<and>
      length (filter isFetch (snd (discordOnEnd r res now isoNow out))) = 1) \<and>
   (enabled r' \<and> telegramIsConfigured r' \<and> delivery_failed out \<longrightarrow>
      list_ex isConsoleError (snd (telegramOnEnd r' res now ts out)) \<and>
      length (filter isFetch (snd (telegramOnEnd r' res now ts out))) = 1)"
  by (simp add: discordOnEnd_returns telegramOnEnd_returns discordOnEnd_unconfigured
      telegramOnEnd_unconfigured discordOnEnd_failed telegramOnEnd_failed)

theorem C9_delivery_never_throws_witness:
  "\<not> discordIsConfigured (sampleDiscord\<lparr>enabled := True\<rparr>) \<and>
   \<not> telegramIsConfigured (sampleTelegram\<lparr>enabled := True\<rparr>) \<and>
   snd (discordOnEnd (sampleDiscord\<lparr>enabled := True\<rparr>) RunFailed 9000 [] (Rejected [])) =
     discordSkipped \<and>
   snd (telegramOnEnd (sampleTelegram\<lparr>enabled := True\<rparr>) RunFailed 9000 [] (Rejected [])) =
     telegramSkipped \<and>
   enabled liveDiscord \<and> discordIsConfigured liveDiscord \<and>
   enabled liveTelegram \<and> telegramIsConfigured liveTelegram \<and>
   delivery_failed (Responded \<lparr>http_status = 429, http_body = Inl (lit ''bad body'')\<rparr>) \<and>
   fst (discordOnEnd liveDiscord RunFailed 9000 []
          (Responded \<lparr>http_status = 429, http_body = Inl (lit ''bad body'')\<rparr>)) = Inr () \<and>
   list_ex isConsoleError (snd (discordOnEnd liveDiscord RunFailed 9000 []
          (Responded \<lparr>http_status = 429, http_body = Inl (lit ''bad body'')\<rparr>))) \<and>
   list_ex isConsoleError (snd (telegramOnEnd liveTelegram RunFailed 9000 []
          (Responded \<lparr>http_status = 429, http_body = Inl (lit ''bad body'')\<rparr>)))"
proof -
  have a: "\<not> discordIsConfigured (sampleDiscord\<lparr>enabled := True\<rparr>)"
    "\<not> telegramIsConfigured (sampleTelegram\<lparr>enabled := True\<rparr>)"
    by (simp_all add: discordIsConfigured_def telegramIsConfigured_def sampleDiscord_def
        sampleTelegram_def newDiscordReporter_def newTelegramReporter_def or_else_def
        emptyEnv_def ReporterOptions.defs DiscordConfig.defs TelegramConfig.defs)
  have b: "enabled liveDiscord" "discordIsConfigured liveDiscord"
    "enabled liveTelegram" "telegramIsConfigured liveTelegram"
    by (simp_all add: liveDiscord_def liveTelegram_def discordIsConfigured_def
        telegramIsConfigured_def lit_def)
  have c: "delivery_failed (Responded \<lparr>http_status = 429, http_body = Inl (lit ''bad body'')\<rparr>)"
    by (simp add: delivery_failed_def response_ok_def)
  show ?thesis
    using a b c
      C9_delivery_never_throws [of "sampleDiscord\<lparr>enabled := True\<rparr>" RunFailed 9000 "[]"
        "Rejected []" "sampleTelegram\<lparr>enabled := True\<rparr>" "[]"]
      C9_delivery_never_throws [of liveDiscord RunFailed 9000 "[]"
        "Responded \<lparr>http_status = 429, http_body = Inl (lit ''bad body'')\<rparr>" liveTelegram "[]"]
    by simp
qed

text \<open>
  Claim C9 as stated fails for a reporter that is not enabled, which is what the default
  options give: with empty credentials it logs nothing, so the run is not logged as skipped.
\<close>

theorem C9_disabled_counterexample:
  "\<not> discordIsConfigured sampleDiscord \<and> \<not> telegramIsConfigured sampleTelegram \<and>
   snd (discordOnEnd sampleDiscord RunFailed 9000 [] (Rejected [])) = [] \<and>
   snd (telegramOnEnd sampleTelegram RunFailed 9000 [] (Rejected [])) = []"
  by (simp add: discordIsConfigured_def telegramIsConfigured_def sampleDiscord_def
        sampleTelegram_def newDiscordReporter_def newTelegramReporter_def or_else_def
        emptyEnv_def noOptions_def nullish_def ReporterOptions.defs DiscordConfig.defs TelegramConfig.defs
        discordOnEnd_def telegramOnEnd_def)

section \<open>Properties of the duration in the message\<close>

lemma onTestEnd_startTime: "startTime (onTestEnd r t res) = startTime r"
  by (cases "status res") (simp_all add: onTestEnd_def Let_def)

lemma recordAll_startTime: "startTime (recordAll r evs) = startTime r"
  by (induction evs rule: rev_induct) (simp_all add: recordAll_def onTestEnd_startTime split: prod.splits)

lemma getPassRate_duration_sum:
  "getPassRate (r\<lparr>stats := (stats r)\<lparr>duration_sum := d\<rparr>\<rparr>) = getPassRate r"
  by (simp add: getPassRate_def)

lemma discordGrouped_duration_sum:
  "discordGrouped (r\<lparr>stats := (stats r)\<lparr>duration_sum := d\<rparr>\<rparr>) = discordGrouped r"
  by (simp add: discordGrouped_def Let_def)

lemma telegramGrouped_duration_sum:
  "telegramGrouped (r\<lparr>stats := (stats r)\<lparr>duration_sum := d\<rparr>\<rparr>) = telegramGrouped r"
  by (simp add: telegramGrouped_def Let_def)

lemma discordResults_duration_sum:
  "discordResults (r\<lparr>stats := (stats r)\<lparr>duration_sum := d\<rparr>\<rparr>) = discordResults r"
  by (simp add: discordResults_def getPassRate_duration_sum)

lemma buildPayload_duration_sum:
  "buildPayload (r\<lparr>stats := (stats r)\<lparr>duration_sum := d\<rparr>\<rparr>) res now isoNow =
   buildPayload r res now isoNow"
  by (simp add: buildPayload_def Let_def discordResults_duration_sum
      discordFailedTestsValue_def discordGrouped_duration_sum)

lemma buildMessage_duration_sum:
  "buildMessage (r\<lparr>stats := (stats r)\<lparr>duration_sum := d\<rparr>\<rparr>) res now ts =
   buildMessage r res now ts"
  by (simp add: buildMessage_def Let_def getPassRate_duration_sum telegramFailedTests_def
      telegramGrouped_duration_sum)

lemma durationField_buildPayload:
  "durationField (buildPayload r res now isoNow) = formatDuration (now - startTime r)"
  by (simp add: durationField_def buildPayload_def Let_def)

lemma buildMessage_duration:
  "\<exists>before after.
     buildMessage r res now ts =
       before @ lit ''<b>Duration:</b> '' @ formatDuration (now - startTime r) @ after"
proof -
  have "buildMessage r res now ts =
      (lit ''<b>Test Execution: '' @ getStatusText res @ lit ''</b>'' @ [0x0A, 0x0A] @
       lit ''<b>Project:</b> '' @ escapeHtml (projectName r) @ [0x0A] @
       lit ''<b>Environment:</b> '' @ escapeHtml (baseUrl r) @ [0x0A] @
       lit ''<b>Time:</b> '' @ escapeHtml ts @ lit '' UTC'' @ [0x0A]) @
      lit ''<b>Duration:</b> '' @ formatDuration (now - startTime r) @
      ([0x0A, 0x0A] @
       lit ''<b>Results:</b>'' @ [0x0A] @
       lit ''Total: '' @ show_nat (total (stats r)) @ [0x0A] @
       lit ''Passed: '' @ show_nat (passed (stats r)) @ [0x0A] @
       lit ''Failed: '' @ show_nat (failed (stats r)) @ [0x0A] @
       lit ''Skipped: '' @ show_nat (skipped (stats r)) @ [0x0A] @
       (if flaky (stats r) > 0 then lit ''Flaky: '' @ show_nat (flaky (stats r)) @ [0x0A]
        else []) @
       lit ''Pass Rate: '' @ getPassRate r @ [0x0A] @
       telegramFailedTests r)"
    unfolding buildMessage_def Let_def append_assoc ..
  then show ?thesis by blast
qed
text \<open>
  Claim C10. Neither message depends on the accumulated \<open>stats.duration\<close>: changing it
  leaves the Discord payload and the Telegram text as they are. The Duration they show is
  \<open>formatDuration\<close> of the clock reading at the time the message is built minus the clock
  reading stored by \<open>onBegin\<close>, whatever was recorded in between.
\<close>

theorem C10_wall_clock_duration:
  "buildPayload (r\<lparr>stats := (stats r)\<lparr>duration_sum := d\<rparr>\<rparr>) res now isoNow =
     buildPayload r res now isoNow \<and>
   buildMessage (r'\<lparr>stats := (stats r')\<lparr>duration_sum := d\<rparr>\<rparr>) res now ts =
     buildMessage r' res now ts \<and>
   durationField (buildPayload (recordAll (onBegin r began projects env) evs) res now isoNow) =
     formatDuration (now - began) \<and>
   (\<exists>before after.
      buildMessage (recordAll (onBegin r' began projects env) evs) res now ts =
        before @ lit ''<b>Duration:</b> '' @ formatDuration (now - began) @ after)"
proof -
  have "startTime (recordAll (onBegin r' began projects env) evs) = began"
    "startTime (recordAll (onBegin r began projects env) evs) = began"
    by (simp_all add: recordAll_startTime onBegin_def)
  then show ?thesis
    using buildMessage_duration [of "recordAll (onBegin r' began projects env) evs" res now ts]
    by (simp add: buildPayload_duration_sum buildMessage_duration_sum durationField_buildPayload)
qed

section \<open>Properties of the grouping\<close>

lemma set_firstSeen: "set (firstSeen xs) = set xs"
  by (induction xs) auto

lemma distinct_firstSeen: "distinct (firstSeen xs)"
  by (induction xs) (auto simp: set_firstSeen)

lemma firstSeen_snoc:
  "firstSeen (xs @ [x]) = (if x \<in> set xs then firstSeen xs else firstSeen xs @ [x])"
  by (induction xs) auto

lemma map_of_tabulate:
  "map_of (map (\<lambda>f. (f, h f)) ks) k = (if k \<in> set ks then Some (h k) else None)"
  by (induction ks) auto

lemma map_set_tabulate:
  "distinct ks \<Longrightarrow>
   map_set (map (\<lambda>f. (f, h f)) ks) k v =
     (if k \<in> set ks then map (\<lambda>f. (f, if f = k then v else h f)) ks
      else map (\<lambda>f. (f, h f)) ks @ [(k, v)])"
  by (induction ks) auto

lemma groupByFile_snoc: "groupByFile (fts @ [t]) = groupStep (groupByFile fts) t"
  by (simp add: groupByFile_def)

lemma groupStep_spec: "groupStep (groupByFile_spec fts) t = groupByFile_spec (fts @ [t])"
proof (cases "file t \<in> set (map file fts)")
  case True
  then show ?thesis
    by (auto simp: groupStep_def groupByFile_spec_def map_of_tabulate map_set_tabulate
        distinct_firstSeen set_firstSeen firstSeen_snoc)
next
  case False
  then have "filter (\<lambda>u. file u = file t) fts = []"
    by (induction fts) auto
  with False show ?thesis
    by (auto simp: groupStep_def groupByFile_spec_def map_of_tabulate map_set_tabulate
        distinct_firstSeen set_firstSeen firstSeen_snoc)
qed

lemma groupByFile_eq_spec: "groupByFile fts = groupByFile_spec fts"
proof (induction fts rule: rev_induct)
  case Nil
  show ?case by (simp add: groupByFile_def groupByFile_spec_def)
next
  case (snoc t fts)
  then show ?case by (simp add: groupByFile_snoc groupStep_spec)
qed

lemma showTests_eq:
  "showTests cap line tests (v, n) =
     (v @ concat (map line (take (cap - n) tests)), n + min (cap - n) (length tests))"
proof (induction tests arbitrary: v n)
  case Nil
  show ?case by simp
next
  case (Cons a tests)
  show ?case
  proof (cases "cap \<le> n")
    case True
    then show ?thesis by simp
  next
    case False
    then obtain d where d: "cap - n = Suc d" by (cases "cap - n") auto
    then have "cap - (n + 1) = d" by simp
    with False d show ?thesis by (simp add: Cons.IH)
  qed
qed

lemma showGroups_eq:
  "showGroups cap header line trailer groups (v, n) =
     (v @ concat (map (renderGroup header line trailer) (shownGroups (cap - n) groups)),
      n + testLines (shownGroups (cap - n) groups))"
proof (induction groups arbitrary: v n)
  case Nil
  show ?case by (simp add: testLines_def)
next
  case (Cons g groups)
  obtain f tests where g: "g = (f, tests)" by (cases g)
  show ?case
  proof (cases "cap \<le> n")
    case True
    then show ?thesis by (simp add: g testLines_def)
  next
    case False
    have "cap - (n + min (cap - n) (length tests)) = cap - n - length tests" by simp
    with False show ?thesis
      by (simp add: g showTests_eq Cons.IH renderGroup_def testLines_def)
  qed
qed

lemma testLines_shownGroups: "testLines (shownGroups k groups) = min k (testLines groups)"
proof (induction groups arbitrary: k)
  case Nil
  show ?case by (simp add: testLines_def)
next
  case (Cons g groups)
  obtain f tests where g: "g = (f, tests)" by (cases g)
  have ih: "testLines (shownGroups (k - length tests) groups) = min (k - length tests) (testLines groups)"
    by (rule Cons.IH)
  show ?case using ih by (auto simp: g testLines_def)
qed

lemma testLines_groupStep: "testLines (groupStep groups t) = testLines groups + 1"
  unfolding groupStep_def Let_def
  by (induction groups) (auto simp: testLines_def)

lemma testLines_groupByFile: "testLines (groupByFile fts) = length fts"
  by (induction fts rule: rev_induct)
     (simp_all add: groupByFile_snoc testLines_groupStep, simp add: groupByFile_def testLines_def)

lemma fileName_a: "fileName (lit ''tests/a.spec.ts'') = lit ''a.spec.ts''"
  by (simp add: fileName_def split_path_def or_else_def lit_def isPathSep_def)

lemma fileName_b: "fileName (lit ''tests/b.spec.ts'') = lit ''b.spec.ts''"
  by (simp add: fileName_def split_path_def or_else_def lit_def isPathSep_def)

lemma dropWhile_hd: "xs \<noteq> [] \<Longrightarrow> \<not> P (hd xs) \<Longrightarrow> dropWhile P xs = xs"
  by (cases xs) simp_all

lemma trim_id:
  assumes "s \<noteq> []" and "\<not> isWhiteSpace (hd s)" and "\<not> isWhiteSpace (last s)"
  shows "trim s = s"
proof -
  have "dropWhile isWhiteSpace s = s"
    using assms(1,2) by (rule dropWhile_hd)
  moreover have "dropWhile isWhiteSpace (rev s) = rev s"
    using assms(1,3) by (intro dropWhile_hd) (simp_all add: hd_rev)
  ultimately show ?thesis by (simp add: trim_def)
qed

lemma length_trim: "length (trim s) \<le> length s"
proof -
  have "length (trim s) \<le> length (dropWhile isWhiteSpace s)"
    unfolding trim_def length_rev
    using length_dropWhile_le [of isWhiteSpace "rev (dropWhile isWhiteSpace s)"] by simp
  also have "\<dots> \<le> length s" by (rule length_dropWhile_le)
  finally show ?thesis .
qed

lemma discordGrouped_eq:
  "discordGrouped r =
     concat (map (renderGroup discordHeader discordLine [0x0A])
       (shownGroups (maxFailedTestsToShow r) (groupByFile (failedTests r)))) @
     (if length (failedTests r) > maxFailedTestsToShow r
      then discordNote (length (failedTests r) - maxFailedTestsToShow r) else [])"
  by (simp add: discordGrouped_def showGroups_eq Let_def)

lemma telegramGrouped_eq:
  "telegramGrouped r =
     concat (map (renderGroup telegramHeader telegramLine [])
       (shownGroups (maxFailedTestsToShow r) (groupByFile (failedTests r)))) @
     (if length (failedTests r) > maxFailedTestsToShow r
      then telegramNote (length (failedTests r) - maxFailedTestsToShow r) else [])"
  by (simp add: telegramGrouped_def showGroups_eq Let_def)

lemma not_ws_icon: "\<not> isWhiteSpace 0xF8FF"
  by (simp add: isWhiteSpace_def)

lemma not_ws_underscore: "\<not> isWhiteSpace 0x5F"
  by (simp add: isWhiteSpace_def)

lemma not_ws_dot: "\<not> isWhiteSpace 0x2E"
  by (simp add: isWhiteSpace_def)

lemma hd_discordBody:
  "groups \<noteq> [] \<Longrightarrow>
   hd (concat (map (renderGroup discordHeader discordLine [0x0A]) groups) @ rest) = 0xF8FF"
  by (cases groups) (simp_all add: renderGroup_def discordHeader_def)

lemma hd_discordNote: "hd (discordNote k) = 0x5F"
  by (simp add: discordNote_def lit_def)

lemma last_discordNote: "last (discordNote k) = 0x5F"
  by (simp add: discordNote_def lit_def)

lemma discordNote_nonempty: "discordNote k \<noteq> []"
  by (simp add: discordNote_def lit_def)

lemma hd_discordGrouped:
  assumes "discordGrouped r \<noteq> []"
  shows "\<not> isWhiteSpace (hd (discordGrouped r))"
proof (cases "shownGroups (maxFailedTestsToShow r) (groupByFile (failedTests r)) = []")
  case True
  with assms show ?thesis
    by (auto simp: discordGrouped_eq hd_discordNote not_ws_underscore split: if_splits)
next
  case False
  then show ?thesis
    unfolding discordGrouped_eq by (simp only: hd_discordBody not_ws_icon not_False_eq_True)
qed

lemma discordValue_truncated:
  assumes "length (discordGrouped r) > 1024"
  shows "discordFailedTestsValue r = take 1020 (discordGrouped r) @ lit ''...''"
proof -
  let ?v = "discordGrouped r"
  let ?c = "take 1020 ?v @ lit ''...''"
  from assms have ne: "?v \<noteq> []" by auto
  then have "hd ?c = hd ?v" using assms by (cases ?v) simp_all
  then have "\<not> isWhiteSpace (hd ?c)" using hd_discordGrouped [OF ne] by simp
  moreover have "\<not> isWhiteSpace (last ?c)" by (simp add: lit_def not_ws_dot)
  moreover have "?c \<noteq> []" by (simp add: lit_def)
  ultimately have "trim ?c = ?c" by (intro trim_id)
  with assms show ?thesis by (simp add: discordFailedTestsValue_def discordCapped_def)
qed

lemma discordValue_length: "length (discordFailedTestsValue r) \<le> 1024"
proof (cases "length (discordGrouped r) > 1024")
  case True
  then show ?thesis by (simp add: discordValue_truncated lit_def)
next
  case False
  then have "discordFailedTestsValue r = trim (discordGrouped r)"
    by (simp add: discordFailedTestsValue_def discordCapped_def)
  with False length_trim [of "discordGrouped r"] show ?thesis by simp
qed

lemma discordGrouped_with_note:
  assumes "length (failedTests r) > maxFailedTestsToShow r"
  shows "trim (discordGrouped r) = discordGrouped r"
proof -
  have ne: "discordGrouped r \<noteq> []"
    using assms by (simp add: discordGrouped_eq discordNote_nonempty)
  have "last (discordGrouped r) = 0x5F"
    using assms by (simp add: discordGrouped_eq discordNote_nonempty last_discordNote)
  then have "\<not> isWhiteSpace (last (discordGrouped r))" by (simp add: not_ws_underscore)
  with ne hd_discordGrouped [OF ne] show ?thesis by (intro trim_id)
qed

lemma buildMessage_tail:
  "\<exists>before. buildMessage r res now ts = before @ telegramFailedTests r"
proof -
  have "buildMessage r res now ts =
      (lit ''<b>Test Execution: '' @ getStatusText res @ lit ''</b>'' @ [0x0A, 0x0A] @
       lit ''<b>Project:</b> '' @ escapeHtml (projectName r) @ [0x0A] @
       lit ''<b>Environment:</b> '' @ escapeHtml (baseUrl r) @ [0x0A] @
       lit ''<b>Time:</b> '' @ escapeHtml ts @ lit '' UTC'' @ [0x0A] @
       lit ''<b>Duration:</b> '' @ formatDuration (now - startTime r) @ [0x0A, 0x0A] @
       lit ''<b>Results:</b>'' @ [0x0A] @
       lit ''Total: '' @ show_nat (total (stats r)) @ [0x0A] @
       lit ''Passed: '' @ show_nat (passed (stats r)) @ [0x0A] @
       lit ''Failed: '' @ show_nat (failed (stats r)) @ [0x0A] @
       lit ''Skipped: '' @ show_nat (skipped (stats r)) @ [0x0A] @
       (if flaky (stats r) > 0 then lit ''Flaky: '' @ show_nat (flaky (stats r)) @ [0x0A]
        else []) @
       lit ''Pass Rate: '' @ getPassRate r @ [0x0A]) @
      telegramFailedTests r"
    unfolding buildMessage_def Let_def append_assoc ..
  then show ?thesis by blast
qed

lemma buildMessage_drop:
  "drop (length (buildMessage r res now ts) - length (telegramFailedTests r))
     (buildMessage r res now ts) = telegramFailedTests r"
proof -
  obtain before where "buildMessage r res now ts = before @ telegramFailedTests r"
    using buildMessage_tail by blast
  then show ?thesis by simp
qed

text \<open>
  Claim C6. Grouping the failure list gives the files in the order of their first appearance
  in the list, each with the titles of its failed tests in the order in which they were
  recorded. Both formatters write the groups in that order: the text of each is the shown
  groups one after the other, followed by the note when there is one.
\<close>

theorem C6_grouping_order:
  "groupByFile fts = groupByFile_spec fts \<and>
   discordGrouped r =
     concat (map (renderGroup discordHeader discordLine [0x0A])
       (shownGroups (maxFailedTestsToShow r) (groupByFile_spec (failedTests r)))) @
     (if length (failedTests r) > maxFailedTestsToShow r
      then discordNote (length (failedTests r) - maxFailedTestsToShow r) else []) \<and>
   telegramGrouped r' =
     concat (map (renderGroup telegramHeader telegramLine [])
       (shownGroups (maxFailedTestsToShow r') (groupByFile_spec (failedTests r')))) @
     (if length (failedTests r') > maxFailedTestsToShow r'
      then telegramNote (length (failedTests r') - maxFailedTestsToShow r') else [])"
  using discordGrouped_eq [of r] telegramGrouped_eq [of r']
  by (simp add: groupByFile_eq_spec)

section \<open>Properties of the cap on the listed tests\<close>

text \<open>
  The loops for a number cap against the loops of the model: at a finite cap \<open>q\<close> they are
  the model's loops at the cap \<open>nat \<lceil>q\<rceil>\<close>, so at a non-negative integer they are the
  model's loops at that integer; at minus infinity they write nothing, and at plus infinity
  and \<open>NaN\<close> they write every group in full.
\<close>

lemma shown_ge_Num: "shown_ge k (Num q) \<longleftrightarrow> nat \<lceil>q\<rceil> \<le> k"
proof -
  have "q \<le> of_nat k \<longleftrightarrow> \<lceil>q\<rceil> \<le> int k"
    by (simp add: ceiling_le_iff)
  also have "\<dots> \<longleftrightarrow> nat \<lceil>q\<rceil> \<le> k" by linarith
  finally show ?thesis by (simp add: shown_ge_def)
qed

lemma showTestsNum_Num:
  "showTestsNum (Num q) line tests st = showTests (nat \<lceil>q\<rceil>) line tests st"
proof (induction tests arbitrary: st)
  case Nil
  show ?case by (cases st) simp
next
  case (Cons a tests)
  show ?case by (cases st) (simp add: shown_ge_Num Cons.IH)
qed

lemma showGroupsNum_Num:
  "showGroupsNum (Num q) header line trailer groups st =
   showGroups (nat \<lceil>q\<rceil>) header line trailer groups st"
proof (induction groups arbitrary: st)
  case Nil
  show ?case by (cases st) simp
next
  case (Cons g groups)
  show ?case
    by (cases st; cases g) (simp add: shown_ge_Num showTestsNum_Num Cons.IH split: prod.splits)
qed

lemma showGroupsNum_nat:
  "showGroupsNum (Num (of_nat k)) header line trailer groups st =
   showGroups k header line trailer groups st"
  by (simp add: showGroupsNum_Num)

lemma showGroupsNum_NegInfinity:
  "showGroupsNum NegInfinity header line trailer groups st = st"
  by (cases st; cases groups; cases "hd groups") (simp_all add: shown_ge_def)

lemma showTestsNum_unbounded:
  "cap = PosInfinity \<or> cap = NaN \<Longrightarrow>
   showTestsNum cap line tests (v, n) = (v @ concat (map line tests), n + length tests)"
  by (induction tests arbitrary: v n) (auto simp: shown_ge_def)

lemma showGroupsNum_unbounded:
  "cap = PosInfinity \<or> cap = NaN \<Longrightarrow>
   showGroupsNum cap header line trailer groups (v, n) =
     (v @ concat (map (renderGroup header line trailer) groups), n + testLines groups)"
proof (induction groups arbitrary: v n)
  case Nil
  show ?case by (simp add: testLines_def)
next
  case (Cons g groups)
  obtain f tests where g: "g = (f, tests)" by (cases g)
  from Cons.prems have ge: "\<not> shown_ge n cap" by (auto simp: shown_ge_def)
  have "showGroupsNum cap header line trailer (g # groups) (v, n) =
      showGroupsNum cap header line trailer groups
        ((v @ header f @ concat (map line tests)) @ trailer, n + length tests)"
    using ge Cons.prems by (simp add: g showTestsNum_unbounded)
  also have "\<dots> = ((v @ header f @ concat (map line tests)) @ trailer @
      concat (map (renderGroup header line trailer) groups),
      (n + length tests) + testLines groups)"
    using Cons.prems by (simp only: Cons.IH append_assoc)
  finally have eq: "showGroupsNum cap header line trailer (g # groups) (v, n) =
      ((v @ header f @ concat (map line tests)) @ trailer @
         concat (map (renderGroup header line trailer) groups),
       (n + length tests) + testLines groups)" .
  have rg: "renderGroup header line trailer (f, tests) =
      header f @ concat (map line tests) @ trailer"
    by (simp add: renderGroup_def)
  show ?case
    unfolding eq by (simp add: g rg testLines_def)
qed

lemma count_gt_nat: "count_gt n (Num (of_nat k)) \<longleftrightarrow> k < n"
  by (simp add: count_gt_def)

text \<open>
  Claim C4, as the code has it, for a cap that is a non-negative integer. The loops write
  \<open>min cap n\<close> test lines, across all file groups, where \<open>n\<close> is the number of failures and
  \<open>cap\<close> is \<open>maxFailedTestsToShow\<close>; when \<open>n\<close> exceeds the cap the grouped text ends with
  the note that names \<open>n - cap\<close>. The Telegram message carries the grouped text as it is.
  The Discord field is the grouped text, trimmed, as long as that text has at most 1024 code
  units, and trimming leaves a text that ends with the note unchanged; a longer text is cut
  by the field cap, and the note with it. The last three conjuncts say that the model's
  loops and its test for the note are those of the source at the number \<open>cap\<close>.
\<close>

theorem C4_failed_tests_cap:
  "testLines (shownGroups (maxFailedTestsToShow r) (groupByFile (failedTests r))) =
     min (maxFailedTestsToShow r) (length (failedTests r)) \<and>
   telegramGrouped r =
     concat (map (renderGroup telegramHeader telegramLine [])
       (shownGroups (maxFailedTestsToShow r) (groupByFile (failedTests r)))) @
     (if length (failedTests r) > maxFailedTestsToShow r
      then telegramNote (length (failedTests r) - maxFailedTestsToShow r) else []) \<and>
   discordGrouped r =
     concat (map (renderGroup discordHeader discordLine [0x0A])
       (shownGroups (maxFailedTestsToShow r) (groupByFile (failedTests r)))) @
     (if length (failedTests r) > maxFailedTestsToShow r
      then discordNote (length (failedTests r) - maxFailedTestsToShow r) else []) \<and>
   (includeFailedTests r \<and> failedTests r \<noteq> [] \<longrightarrow>
      telegramFailedTests r = [0x0A] @ lit ''<b>Failed Tests:</b>'' @ [0x0A] @ telegramGrouped r) \<and>
   (length (discordGrouped r) \<le> 1024 \<longrightarrow>
      discordFailedTestsValue r = trim (discordGrouped r)) \<and>
   (length (failedTests r) > maxFailedTestsToShow r \<longrightarrow>
      trim (discordGrouped r) = discordGrouped r) \<and>
   showGroupsNum (Num (of_nat (maxFailedTestsToShow r))) discordHeader discordLine [0x0A]
       (groupByFile (failedTests r)) ([], 0) =
     showGroups (maxFailedTestsToShow r) discordHeader discordLine [0x0A]
       (groupByFile (failedTests r)) ([], 0) \<and>
   showGroupsNum (Num (of_nat (maxFailedTestsToShow r))) telegramHeader telegramLine []
       (groupByFile (failedTests r)) ([], 0) =
     showGroups (maxFailedTestsToShow r) telegramHeader telegramLine []
       (groupByFile (failedTests r)) ([], 0) \<and>
   count_gt (length (failedTests r)) (Num (of_nat (maxFailedTestsToShow r))) =
     (length (failedTests r) > maxFailedTestsToShow r)"
proof (intro conjI impI)
  show "showGroupsNum (Num (of_nat (maxFailedTestsToShow r))) discordHeader discordLine [0x0A]
       (groupByFile (failedTests r)) ([], 0) =
     showGroups (maxFailedTestsToShow r) discordHeader discordLine [0x0A]
       (groupByFile (failedTests r)) ([], 0)"
    by (rule showGroupsNum_nat)
  show "showGroupsNum (Num (of_nat (maxFailedTestsToShow r))) telegramHeader telegramLine []
       (groupByFile (failedTests r)) ([], 0) =
     showGroups (maxFailedTestsToShow r) telegramHeader telegramLine []
       (groupByFile (failedTests r)) ([], 0)"
    by (rule showGroupsNum_nat)
  show "count_gt (length (failedTests r)) (Num (of_nat (maxFailedTestsToShow r))) =
     (length (failedTests r) > maxFailedTestsToShow r)"
    by (simp add: count_gt_nat)
  show "testLines (shownGroups (maxFailedTestsToShow r) (groupByFile (failedTests r))) =
      min (maxFailedTestsToShow r) (length (failedTests r))"
    by (simp add: testLines_shownGroups testLines_groupByFile)
  show "telegramGrouped r =
     concat (map (renderGroup telegramHeader telegramLine [])
       (shownGroups (maxFailedTestsToShow r) (groupByFile (failedTests r)))) @
     (if length (failedTests r) > maxFailedTestsToShow r
      then telegramNote (length (failedTests r) - maxFailedTestsToShow r) else [])"
    by (rule telegramGrouped_eq)
  show "discordGrouped r =
     concat (map (renderGroup discordHeader discordLine [0x0A])
       (shownGroups (maxFailedTestsToShow r) (groupByFile (failedTests r)))) @
     (if length (failedTests r) > maxFailedTestsToShow r
      then discordNote (length (failedTests r) - maxFailedTestsToShow r) else [])"
    by (rule discordGrouped_eq)
  show "telegramFailedTests r = [0x0A] @ lit ''<b>Failed Tests:</b>'' @ [0x0A] @ telegramGrouped r"
    if "includeFailedTests r \<and> failedTests r \<noteq> []"
    using that by (simp add: telegramFailedTests_def)
  show "discordFailedTestsValue r = trim (discordGrouped r)"
    if "length (discordGrouped r) \<le> 1024"
    using that by (simp add: discordFailedTestsValue_def discordCapped_def)
  show "trim (discordGrouped r) = discordGrouped r"
    if "length (failedTests r) > maxFailedTestsToShow r"
    using that by (rule discordGrouped_with_note)
qed

lemma onTestEnd_config:
  "maxFailedTestsToShow (onTestEnd r t res) = maxFailedTestsToShow r"
  "includeFailedTests (onTestEnd r t res) = includeFailedTests r"
  by (cases "status res"; simp add: onTestEnd_def Let_def)+

lemma recordAll_config:
  "maxFailedTestsToShow (recordAll r evs) = maxFailedTestsToShow r"
  "includeFailedTests (recordAll r evs) = includeFailedTests r"
  by (induction evs rule: rev_induct; simp add: recordAll_def onTestEnd_config split: prod.splits)+

lemma recordAll_seven:
  "failedTests r = [] \<Longrightarrow> failedTests (recordAll r sevenEvents) =
     map (\<lambda>(t, f). \<lparr>title = lit t, file = lit f, error = lit ''Unknown error''\<rparr>)
     [(''t1'', ''a.spec.ts''), (''t2'', ''b.spec.ts''), (''t3'', ''a.spec.ts''), (''t4'', ''b.spec.ts''),
      (''t5'', ''a.spec.ts''), (''t6'', ''b.spec.ts''), (''t7'', ''a.spec.ts'')]"
  by (simp add: sevenEvents_def recordAll_def onTestEnd_def sampleTest_def
      sampleResult_def fileName_a fileName_b extractErrorMessage_def)

lemma groups_recordAll_seven:
  "failedTests r = [] \<Longrightarrow> groupByFile (failedTests (recordAll r sevenEvents)) =
     [(lit ''a.spec.ts'', [lit ''t1'', lit ''t3'', lit ''t5'', lit ''t7'']),
      (lit ''b.spec.ts'', [lit ''t2'', lit ''t4'', lit ''t6''])]"
  by (simp add: recordAll_seven groupByFile_def groupStep_def lit_def)

lemma recordAll_long:
  "failedTests r = [] \<Longrightarrow> failedTests (recordAll r longEvents) =
     [\<lparr>title = replicate 1100 0x61, file = lit ''a.spec.ts'', error = lit ''Unknown error''\<rparr>,
      \<lparr>title = lit ''t2'', file = lit ''a.spec.ts'', error = lit ''Unknown error''\<rparr>]"
  by (simp add: longEvents_def recordAll_def onTestEnd_def sampleTest_def
      sampleResult_def fileName_a extractErrorMessage_def)

lemma groups_recordAll_long:
  "failedTests r = [] \<Longrightarrow> groupByFile (failedTests (recordAll r longEvents)) =
     [(lit ''a.spec.ts'', [replicate 1100 0x61, lit ''t2''])]"
  by (simp add: recordAll_long groupByFile_def groupStep_def)

lemma sample_fresh:
  "failedTests sampleDiscord = []" "failedTests sampleTelegram = []"
  "maxFailedTestsToShow sampleDiscord = 5" "maxFailedTestsToShow sampleTelegram = 5"
  "includeFailedTests sampleDiscord" "includeFailedTests sampleTelegram"
  by (simp_all add: sampleDiscord_def sampleTelegram_def newDiscordReporter_def
      newTelegramReporter_def noOptions_def nullish_def ReporterOptions.defs)

lemma escapeHtml_plain: "escapeHtml (replicate n 0x61) = replicate n 0x61"
  by (induction n) (simp_all add: escapeHtml_Nil escapeHtml_Cons escapeChar_spec_def)

lemma discordGrouped_long:
  "discordGrouped longDiscord =
     discordHeader (lit ''a.spec.ts'') @ discordLine (replicate 1100 0x61) @ [0x0A] @ discordNote 1"
proof -
  have "maxFailedTestsToShow longDiscord = 1" "length (failedTests longDiscord) = 2"
    by (simp_all add: longDiscord_def recordAll_config recordAll_long sample_fresh)
  moreover have "groupByFile (failedTests longDiscord) =
      [(lit ''a.spec.ts'', [replicate 1100 0x61, lit ''t2''])]"
    by (simp add: longDiscord_def groups_recordAll_long sample_fresh)
  ultimately show ?thesis
    by (simp add: discordGrouped_eq renderGroup_def)
qed

lemma discordValue_long:
  "discordFailedTestsValue longDiscord =
     discordHeader (lit ''a.spec.ts'') @ [0x201A, 0xC4, 0xA2, 0x20] @ replicate 997 0x61 @ lit ''...''"
proof -
  have "length (discordGrouped longDiscord) > 1024"
    by (simp add: discordGrouped_long discordHeader_def discordLine_def lit_def)
  then have "discordFailedTestsValue longDiscord = take 1020 (discordGrouped longDiscord) @ lit ''...''"
    by (rule discordValue_truncated)
  then show ?thesis
    by (simp add: discordGrouped_long discordHeader_def discordLine_def lit_def)
qed

theorem C4_failed_tests_cap_witness:
  "maxFailedTestsToShow sevenDiscord = 5 \<and> length (failedTests sevenDiscord) = 7 \<and>
   maxFailedTestsToShow sevenDiscord < length (failedTests sevenDiscord) \<and>
   includeFailedTests sevenTelegram \<and> failedTests sevenTelegram \<noteq> [] \<and>
   length (discordGrouped sevenDiscord) \<le> 1024 \<and>
   testLines (shownGroups (maxFailedTestsToShow sevenDiscord)
     (groupByFile (failedTests sevenDiscord))) = 5 \<and>
   discordFailedTestsValue sevenDiscord =
     discordHeader (lit ''a.spec.ts'') @ discordLine (lit ''t1'') @ discordLine (lit ''t3'') @
     discordLine (lit ''t5'') @ discordLine (lit ''t7'') @ [0x0A] @
     discordHeader (lit ''b.spec.ts'') @ discordLine (lit ''t2'') @ [0x0A] @
     lit ''_... and 2 more failed tests_'' \<and>
   telegramFailedTests sevenTelegram =
     [0x0A] @ lit ''<b>Failed Tests:</b>'' @ [0x0A] @
     telegramHeader (lit ''a.spec.ts'') @ telegramLine (lit ''t1'') @ telegramLine (lit ''t3'') @
     telegramLine (lit ''t5'') @ telegramLine (lit ''t7'') @
     telegramHeader (lit ''b.spec.ts'') @ telegramLine (lit ''t2'') @
     [0x0A] @ lit ''<i>... and 2 more failed tests</i>''"
proof -
  have cap: "maxFailedTestsToShow sevenDiscord = 5" "maxFailedTestsToShow sevenTelegram = 5"
    by (simp_all add: sevenDiscord_def sevenTelegram_def recordAll_config sample_fresh)
  have n: "length (failedTests sevenDiscord) = 7" "length (failedTests sevenTelegram) = 7"
    by (simp_all add: sevenDiscord_def sevenTelegram_def recordAll_seven sample_fresh)
  have inc: "includeFailedTests sevenTelegram"
    by (simp add: sevenTelegram_def recordAll_config sample_fresh)
  have g: "groupByFile (failedTests sevenDiscord) =
     [(lit ''a.spec.ts'', [lit ''t1'', lit ''t3'', lit ''t5'', lit ''t7'']),
      (lit ''b.spec.ts'', [lit ''t2'', lit ''t4'', lit ''t6''])]"
    "groupByFile (failedTests sevenTelegram) =
     [(lit ''a.spec.ts'', [lit ''t1'', lit ''t3'', lit ''t5'', lit ''t7'']),
      (lit ''b.spec.ts'', [lit ''t2'', lit ''t4'', lit ''t6''])]"
    by (simp_all add: sevenDiscord_def sevenTelegram_def groups_recordAll_seven sample_fresh)
  have nt: "discordNote 2 = lit ''_... and 2 more failed tests_''"
    "telegramNote 2 = [0x0A] @ lit ''<i>... and 2 more failed tests</i>''"
    by (simp_all add: discordNote_def telegramNote_def show_nat.simps digit_def lit_def)
  have dg: "discordGrouped sevenDiscord =
     discordHeader (lit ''a.spec.ts'') @ discordLine (lit ''t1'') @ discordLine (lit ''t3'') @
     discordLine (lit ''t5'') @ discordLine (lit ''t7'') @ [0x0A] @
     discordHeader (lit ''b.spec.ts'') @ discordLine (lit ''t2'') @ [0x0A] @
     lit ''_... and 2 more failed tests_''"
  proof -
    from C4_failed_tests_cap [of sevenDiscord]
    have "discordGrouped sevenDiscord =
        concat (map (renderGroup discordHeader discordLine [0x0A])
          (shownGroups (maxFailedTestsToShow sevenDiscord)
            (groupByFile (failedTests sevenDiscord)))) @
        (if length (failedTests sevenDiscord) > maxFailedTestsToShow sevenDiscord
         then discordNote (length (failedTests sevenDiscord) - maxFailedTestsToShow sevenDiscord)
         else [])"
      by blast
    then show ?thesis
      by (simp add: cap n g renderGroup_def nt)
  qed
  have tg: "telegramGrouped sevenTelegram =
     telegramHeader (lit ''a.spec.ts'') @ telegramLine (lit ''t1'') @ telegramLine (lit ''t3'') @
     telegramLine (lit ''t5'') @ telegramLine (lit ''t7'') @
     telegramHeader (lit ''b.spec.ts'') @ telegramLine (lit ''t2'') @
     [0x0A] @ lit ''<i>... and 2 more failed tests</i>''"
  proof -
    from C4_failed_tests_cap [of sevenTelegram]
    have "telegramGrouped sevenTelegram =
        concat (map (renderGroup telegramHeader telegramLine [])
          (shownGroups (maxFailedTestsToShow sevenTelegram)
            (groupByFile (failedTests sevenTelegram)))) @
        (if length (failedTests sevenTelegram) > maxFailedTestsToShow sevenTelegram
         then telegramNote (length (failedTests sevenTelegram) -
                maxFailedTestsToShow sevenTelegram)
         else [])"
      by blast
    then show ?thesis
      by (simp add: cap n g renderGroup_def nt)
  qed
  have len: "length (discordGrouped sevenDiscord) \<le> 1024"
    by (simp add: dg discordHeader_def discordLine_def lit_def)
  have ne: "failedTests sevenTelegram \<noteq> []"
    using n(2) by auto
  have lt: "maxFailedTestsToShow sevenDiscord < length (failedTests sevenDiscord)"
    by (simp add: cap n)
  from C4_failed_tests_cap [of sevenDiscord]
  have "testLines (shownGroups (maxFailedTestsToShow sevenDiscord)
          (groupByFile (failedTests sevenDiscord))) =
        min (maxFailedTestsToShow sevenDiscord) (length (failedTests sevenDiscord))"
    by blast
  then have tl: "testLines (shownGroups (maxFailedTestsToShow sevenDiscord)
          (groupByFile (failedTests sevenDiscord))) = 5"
    by (simp add: cap n)
  from C4_failed_tests_cap [of sevenDiscord] len lt
  have "discordFailedTestsValue sevenDiscord = trim (discordGrouped sevenDiscord)"
    and "trim (discordGrouped sevenDiscord) = discordGrouped sevenDiscord"
    by blast+
  then have fv: "discordFailedTestsValue sevenDiscord = discordGrouped sevenDiscord"
    by simp
  from C4_failed_tests_cap [of sevenTelegram] inc ne
  have tf: "telegramFailedTests sevenTelegram =
      [0x0A] @ lit ''<b>Failed Tests:</b>'' @ [0x0A] @ telegramGrouped sevenTelegram"
    by blast
  show ?thesis
    unfolding fv tf dg tg using cap(1) n(1) lt inc ne len tl by (simp add: dg)
qed

text \<open>
  Claim C4 as stated fails for Discord: with a cap of 1 and two failures, the first with a
  title of 1100 characters, the field is cut to 1020 code units and \<open>...\<close>; the note that
  names the one remaining failure is not in it (the letter \<open>m\<close> of \<open>more\<close> occurs nowhere).
  It also fails for a cap that is not a non-negative integer, which the source accepts: with
  the seven failures of the sample, the loops write 2 test lines at the cap 3/2, and at the
  cap -1 they write none while the note is due.
\<close>

theorem C4_discord_truncation_counterexample:
  "maxFailedTestsToShow longDiscord = 1 \<and> length (failedTests longDiscord) = 2 \<and>
   includeFailedTests longDiscord \<and>
   discordFailedTestsValue longDiscord =
     discordHeader (lit ''a.spec.ts'') @ [0x201A, 0xC4, 0xA2, 0x20] @ replicate 997 0x61 @
     lit ''...'' \<and>
   0x6D \<in> set (discordNote 1) \<and>
   0x6D \<notin> set (discordFailedTestsValue longDiscord) \<and>
   snd (showGroupsNum (Num (3 / 2)) discordHeader discordLine [0x0A]
          (groupByFile (failedTests sevenDiscord)) ([], 0)) = 2 \<and>
   snd (showGroupsNum (Num (- 1)) discordHeader discordLine [0x0A]
          (groupByFile (failedTests sevenDiscord)) ([], 0)) = 0 \<and>
   count_gt (length (failedTests sevenDiscord)) (Num (- 1))"
proof -
  have "maxFailedTestsToShow longDiscord = 1" "length (failedTests longDiscord) = 2"
    "includeFailedTests longDiscord"
    by (simp_all add: longDiscord_def recordAll_config recordAll_long sample_fresh)
  moreover have "0x6D \<in> set (discordNote 1)"
    by (simp add: discordNote_def lit_def)
  moreover have "0x6D \<notin> set (discordFailedTestsValue longDiscord)"
    by (simp add: discordValue_long discordHeader_def lit_def)
  ultimately have trunc:
    "maxFailedTestsToShow longDiscord = 1 \<and> length (failedTests longDiscord) = 2 \<and>
     includeFailedTests longDiscord \<and>
     discordFailedTestsValue longDiscord =
       discordHeader (lit ''a.spec.ts'') @ [0x201A, 0xC4, 0xA2, 0x20] @ replicate 997 0x61 @
       lit ''...'' \<and>
     0x6D \<in> set (discordNote 1) \<and>
     0x6D \<notin> set (discordFailedTestsValue longDiscord)"
    by (simp add: discordValue_long)
  have g: "groupByFile (failedTests sevenDiscord) =
     [(lit ''a.spec.ts'', [lit ''t1'', lit ''t3'', lit ''t5'', lit ''t7'']),
      (lit ''b.spec.ts'', [lit ''t2'', lit ''t4'', lit ''t6''])]"
    by (simp add: sevenDiscord_def groups_recordAll_seven sample_fresh)
  have "\<lceil>3 / 2 :: rat\<rceil> = 2" by (rule ceiling_unique) simp_all
  then have c: "nat \<lceil>3 / 2 :: rat\<rceil> = 2" "nat \<lceil>- 1 :: rat\<rceil> = 0" by simp_all
  have a: "showGroupsNum (Num (3 / 2)) discordHeader discordLine [0x0A]
          (groupByFile (failedTests sevenDiscord)) ([], 0) =
        showGroups 2 discordHeader discordLine [0x0A]
          (groupByFile (failedTests sevenDiscord)) ([], 0)"
    "showGroupsNum (Num (- 1)) discordHeader discordLine [0x0A]
          (groupByFile (failedTests sevenDiscord)) ([], 0) =
        showGroups 0 discordHeader discordLine [0x0A]
          (groupByFile (failedTests sevenDiscord)) ([], 0)"
    by (simp_all only: showGroupsNum_Num c)
  have n: "length (failedTests sevenDiscord) = 7"
    by (simp add: sevenDiscord_def recordAll_seven sample_fresh)
  have "snd (showGroupsNum (Num (3 / 2)) discordHeader discordLine [0x0A]
          (groupByFile (failedTests sevenDiscord)) ([], 0)) = 2 \<and>
   snd (showGroupsNum (Num (- 1)) discordHeader discordLine [0x0A]
          (groupByFile (failedTests sevenDiscord)) ([], 0)) = 0 \<and>
   count_gt (length (failedTests sevenDiscord)) (Num (- 1))"
    unfolding a n by (simp add: g count_gt_def)
  with trunc show ?thesis by blast
qed

section \<open>Properties of the length cap of the failures field\<close>

text \<open>
  Claim C2, as the code has it. When the grouped text of the Discord reporter is longer than
  1024 code units, the field value is its first 1020 code units followed by \<open>...\<close>, 1023
  code units in all; in every case the field value has at most 1024 code units. The Telegram
  reporter has no such cap: its message ends with the failed-tests block in full, which is
  the heading followed by the grouped text.
\<close>

theorem C2_discord_field_cap:
  "(length (discordGrouped r) > 1024 \<longrightarrow>
      discordFailedTestsValue r = take 1020 (discordGrouped r) @ lit ''...'' \<and>
      length (discordFailedTestsValue r) = 1023) \<and>
   length (discordFailedTestsValue r) \<le> 1024 \<and>
   (includeFailedTests r' \<and> failedTests r' \<noteq> [] \<longrightarrow>
      telegramFailedTests r' = [0x0A] @ lit ''<b>Failed Tests:</b>'' @ [0x0A] @ telegramGrouped r') \<and>
   drop (length (buildMessage r' res now ts) - length (telegramFailedTests r'))
     (buildMessage r' res now ts) = telegramFailedTests r'"
proof (intro conjI impI)
  show "discordFailedTestsValue r = take 1020 (discordGrouped r) @ lit ''...''"
    if "length (discordGrouped r) > 1024"
    using that by (rule discordValue_truncated)
  show "length (discordFailedTestsValue r) = 1023" if "length (discordGrouped r) > 1024"
    using that by (simp add: discordValue_truncated lit_def)
  show "length (discordFailedTestsValue r) \<le> 1024"
    by (rule discordValue_length)
  show "telegramFailedTests r' = [0x0A] @ lit ''<b>Failed Tests:</b>'' @ [0x0A] @ telegramGrouped r'"
    if "includeFailedTests r' \<and> failedTests r' \<noteq> []"
    using that by (simp add: telegramFailedTests_def)
  show "drop (length (buildMessage r' res now ts) - length (telegramFailedTests r'))
     (buildMessage r' res now ts) = telegramFailedTests r'"
    by (rule buildMessage_drop)
qed

theorem C2_discord_field_cap_witness:
  "length (discordGrouped longDiscord) > 1024 \<and>
   discordFailedTestsValue longDiscord =
     discordHeader (lit ''a.spec.ts'') @ [0x201A, 0xC4, 0xA2, 0x20] @ replicate 997 0x61 @
     lit ''...'' \<and>
   length (discordFailedTestsValue longDiscord) = 1023 \<and>
   includeFailedTests sevenTelegram \<and> failedTests sevenTelegram \<noteq> [] \<and>
   telegramFailedTests sevenTelegram =
     [0x0A] @ lit ''<b>Failed Tests:</b>'' @ [0x0A] @ telegramGrouped sevenTelegram"
proof -
  have len: "length (discordGrouped longDiscord) > 1024"
    by (simp add: discordGrouped_long discordHeader_def discordLine_def lit_def)
  have inc: "includeFailedTests sevenTelegram"
    by (simp add: sevenTelegram_def recordAll_config sample_fresh)
  have ne: "failedTests sevenTelegram \<noteq> []"
    by (simp add: sevenTelegram_def recordAll_seven sample_fresh)
  have v: "discordFailedTestsValue longDiscord =
     discordHeader (lit ''a.spec.ts'') @ [0x201A, 0xC4, 0xA2, 0x20] @ replicate 997 0x61 @
     lit ''...''"
    by (rule discordValue_long)
  from C2_discord_field_cap [of longDiscord sevenTelegram RunFailed 9000 "[]"] len inc ne
  have "length (discordFailedTestsValue longDiscord) = 1023"
    and "telegramFailedTests sevenTelegram =
     [0x0A] @ lit ''<b>Failed Tests:</b>'' @ [0x0A] @ telegramGrouped sevenTelegram"
    by blast+
  with len inc ne v show ?thesis by blast
qed

text \<open>
  Claim C2 as stated fails for Telegram: with a failure whose title has 1100 characters the
  failed-tests block of the message has 1157 code units, it is the end of the message as it
  is, and it ends with the line break of the last test line, not with an ellipsis.
\<close>

theorem C2_telegram_uncapped_counterexample:
  "includeFailedTests longTelegram \<and>
   telegramFailedTests longTelegram =
     [0x0A] @ lit ''<b>Failed Tests:</b>'' @ [0x0A] @ telegramHeader (lit ''a.spec.ts'') @
     telegramLine (replicate 1100 0x61) @ telegramLine (lit ''t2'') \<and>
   length (telegramFailedTests longTelegram) = 1157 \<and>
   drop (length (buildMessage longTelegram RunFailed 9000 []) - 1157)
     (buildMessage longTelegram RunFailed 9000 []) = telegramFailedTests longTelegram \<and>
   last (telegramFailedTests longTelegram) = 0x0A"
proof -
  have inc: "includeFailedTests longTelegram"
    by (simp add: longTelegram_def recordAll_config sample_fresh)
  have t: "telegramFailedTests longTelegram =
     [0x0A] @ lit ''<b>Failed Tests:</b>'' @ [0x0A] @ telegramHeader (lit ''a.spec.ts'') @
     telegramLine (replicate 1100 0x61) @ telegramLine (lit ''t2'')"
  proof -
    have "maxFailedTestsToShow longTelegram = 5" "length (failedTests longTelegram) = 2"
      by (simp_all add: longTelegram_def recordAll_config recordAll_long sample_fresh)
    moreover have "groupByFile (failedTests longTelegram) =
        [(lit ''a.spec.ts'', [replicate 1100 0x61, lit ''t2''])]"
      by (simp add: longTelegram_def groups_recordAll_long sample_fresh)
    moreover have "failedTests longTelegram \<noteq> []"
      by (simp add: longTelegram_def recordAll_long sample_fresh)
    ultimately show ?thesis
      using inc by (simp add: telegramFailedTests_def telegramGrouped_eq renderGroup_def)
  qed
  have l: "length (telegramFailedTests longTelegram) = 1157"
  proof -
    have "escapeHtml (lit ''a.spec.ts'') = lit ''a.spec.ts''" "escapeHtml (lit ''t2'') = lit ''t2''"
      by (simp_all add: escapeHtml_def lit_def)
    then show ?thesis
      by (simp add: t telegramHeader_def telegramLine_def escapeHtml_plain lit_def)
  qed
  have d: "drop (length (buildMessage longTelegram RunFailed 9000 []) - 1157)
     (buildMessage longTelegram RunFailed 9000 []) = telegramFailedTests longTelegram"
    using buildMessage_drop [of longTelegram RunFailed 9000 "[]"] by (simp add: l)
  have "last (telegramFailedTests longTelegram) = 0x0A"
    by (simp add: t telegramLine_def)
  with inc t l d show ?thesis by simp
qed

section \<open>Properties of the pass rate\<close>

text \<open>
  The error of the double-precision steps. Rounding to the nearest double moves a quotient
  by at most half a unit of the last mantissa digit; for a quotient below \<open>2 ^ j\<close> that is
  at most \<open>2 ^ (j - 54)\<close>. So the quotient of the counters is within \<open>2 ^ -53\<close> of the exact
  one, its product with 100 within \<open>2 ^ -47\<close> of the exact product, and \<open>toFixed(1)\<close> picks
  the tenth nearest to the double it is given.
\<close>

lemma bit_length_nonneg: "0 \<le> bit_length n"
proof (induction n rule: bit_length.induct)
  case (1 n)
  then show ?case by (subst bit_length.simps) auto
qed

lemma bit_length_pos: "0 < n \<Longrightarrow> 1 \<le> bit_length n"
  using bit_length_nonneg [of "n div 2"] by (subst bit_length.simps) simp

lemma bit_length_bounds:
  "0 < n \<Longrightarrow> 2 ^ nat (bit_length n - 1) \<le> n \<and> n < 2 ^ nat (bit_length n)"
proof (induction n rule: bit_length.induct)
  case (1 n)
  show ?case
  proof (cases "n = 1")
    case True
    then show ?thesis by (simp add: bit_length.simps)
  next
    case False
    with "1.prems" have h: "0 < n div 2" by simp
    with "1.IH" "1.prems" have ih: "2 ^ nat (bit_length (n div 2) - 1) \<le> n div 2"
      "n div 2 < 2 ^ nat (bit_length (n div 2))" by simp_all
    have bl: "bit_length n = 1 + bit_length (n div 2)"
      using "1.prems" by (subst bit_length.simps) simp
    have p: "1 \<le> bit_length (n div 2)" using h by (rule bit_length_pos)
    then have e1: "nat (bit_length n - 1) = Suc (nat (bit_length (n div 2) - 1))"
      and e2: "nat (bit_length n) = Suc (nat (bit_length (n div 2)))"
      unfolding bl by linarith+
    show ?thesis unfolding e1 e2 using ih by simp linarith
  qed
qed

lemma round_half_even_error:
  fixes num den :: int
  assumes "0 < den"
  shows "\<bar>(of_int (round_half_even num den) :: rat) - of_int num / of_int den\<bar> \<le> 1 / 2"
proof -
  define q r where "q = num div den" and "r = num mod den"
  have num: "num = q * den + r" and r: "0 \<le> r" "r < den"
    using assms by (simp_all add: q_def r_def)
  have frac: "(of_int num :: rat) / of_int den = of_int q + of_int r / of_int den"
    using assms by (simp add: num field_simps)
  have d: "(0::rat) < of_int den" using assms by simp
  have r': "(0::rat) \<le> of_int r" "(of_int r :: rat) < of_int den" using r by simp_all
  consider "2 * r < den" | "2 * r > den" | "2 * r = den" by linarith
  then show ?thesis
  proof cases
    case 1
    then have "(2::rat) * of_int r < of_int den" by (metis of_int_less_iff of_int_mult of_int_numeral)
    with 1 d r' show ?thesis
      by (simp add: round_half_even_def q_def [symmetric] r_def [symmetric] frac field_simps)
  next
    case 2
    then have "(2::rat) * of_int r > of_int den" by (metis of_int_less_iff of_int_mult of_int_numeral)
    with 2 d r' show ?thesis
      by (simp add: round_half_even_def q_def [symmetric] r_def [symmetric] frac field_simps abs_if)
  next
    case 3
    then have "(2::rat) * of_int r = of_int den" by (metis of_int_mult of_int_numeral)
    with 3 d r' show ?thesis
      by (auto simp add: round_half_even_def q_def [symmetric] r_def [symmetric] frac field_simps abs_if)
  qed
qed


lemma powi_nat: "0 \<le> e \<Longrightarrow> (2::rat) powi e = 2 ^ nat e"
  by (simp add: power_int_def)

lemma powi_neg: "e < 0 \<Longrightarrow> (2::rat) powi e = 1 / 2 ^ nat (- e)"
  by (simp add: power_int_def field_simps)

lemma powi_pred: "(2::rat) powi (e - 1) = 2 powi e / 2"
  by (simp add: power_int_diff)

lemma floor_log2_le:
  assumes "0 < a" and "0 < b"
  shows "(2::rat) powi (floor_log2 a b) \<le> of_int a / of_int b"
proof -
  define k where "k = bit_length a - bit_length b"
  have b': "(0::rat) < of_int b" using assms by simp
  show ?thesis
  proof (cases "if k \<ge> 0 then a \<ge> b * 2 ^ nat k else a * 2 ^ nat (- k) \<ge> b")
    case True
    then have fl: "floor_log2 a b = k"
      by (simp add: floor_log2_def k_def [symmetric])
    show ?thesis
    proof (cases "k \<ge> 0")
      case True
      with \<open>if k \<ge> 0 then a \<ge> b * 2 ^ nat k else a * 2 ^ nat (- k) \<ge> b\<close>
      have "b * 2 ^ nat k \<le> a" by simp
      then have "(of_int (b * 2 ^ nat k) :: rat) \<le> of_int a" by (simp only: of_int_le_iff)
      then have "(of_int b :: rat) * 2 ^ nat k \<le> of_int a" by simp
      with b' have "(2::rat) ^ nat k \<le> of_int a / of_int b" by (simp add: field_simps)
      with True show ?thesis by (simp add: fl powi_nat)
    next
      case False
      with \<open>if k \<ge> 0 then a \<ge> b * 2 ^ nat k else a * 2 ^ nat (- k) \<ge> b\<close>
      have "b \<le> a * 2 ^ nat (- k)" by simp
      then have "(of_int b :: rat) \<le> of_int (a * 2 ^ nat (- k))" by (simp only: of_int_le_iff)
      then have "(of_int b :: rat) \<le> of_int a * 2 ^ nat (- k)" by simp
      with b' have "1 / (2::rat) ^ nat (- k) \<le> of_int a / of_int b" by (simp add: field_simps)
      with False show ?thesis by (simp add: fl powi_neg)
    qed
  next
    case False
    then have fl: "floor_log2 a b = k - 1"
      by (simp add: floor_log2_def k_def [symmetric])
    from bit_length_bounds [OF assms(1)] have "2 ^ nat (bit_length a - 1) \<le> a" by simp
    then have "(of_int (2 ^ nat (bit_length a - 1)) :: rat) \<le> of_int a" by (simp only: of_int_le_iff)
    then have la: "(2::rat) ^ nat (bit_length a - 1) \<le> of_int a" by simp
    from bit_length_bounds [OF assms(2)] have "b \<le> 2 ^ nat (bit_length b)" by simp
    then have "(of_int b :: rat) \<le> of_int (2 ^ nat (bit_length b))" by (simp only: of_int_le_iff)
    then have lb: "(of_int b :: rat) \<le> 2 ^ nat (bit_length b)" by simp
    have pa: "1 \<le> bit_length a" using assms(1) by (rule bit_length_pos)
    have pb: "0 \<le> bit_length b" by (rule bit_length_nonneg)
    have "(2::rat) powi (k - 1) = 2 powi (bit_length a - 1) / 2 powi (bit_length b)"
      by (simp add: k_def power_int_diff [symmetric] algebra_simps)
    also have "\<dots> = 2 ^ nat (bit_length a - 1) / 2 ^ nat (bit_length b)"
      using pa pb by (simp add: powi_nat)
    also have "\<dots> \<le> of_int a / of_int b"
      using la lb b' assms by (intro frac_le) simp_all
    finally show ?thesis by (simp add: fl)
  qed
qed

lemma nearest_double_error:
  assumes "0 < a" and "0 < b"
  shows "\<bar>dval (nearest_double a b) - of_int a / of_int b\<bar> \<le> 2 powi (floor_log2 a b - 53)"
proof -
  define e where "e = floor_log2 a b - 52"
  have e1: "floor_log2 a b - 53 = e - 1" by (simp add: e_def)
  have b': "(0::rat) < of_int b" using assms by simp
  show ?thesis
  proof (cases "e \<ge> 0")
    case True
    define n where "n = nat e"
    define m where "m = round_half_even a (b * 2 ^ n)"
    have nd: "nearest_double a b = (m, e)"
      using assms True by (simp add: nearest_double_def e_def [symmetric] m_def n_def Let_def)
    have "0 < b * 2 ^ n" using assms by simp
    from round_half_even_error [OF this, of a]
    have "\<bar>(of_int m :: rat) - of_int a / (of_int b * 2 ^ n)\<bar> \<le> 1 / 2"
      by (simp add: m_def)
    then have "\<bar>(of_int m :: rat) - of_int a / (of_int b * 2 ^ n)\<bar> * 2 ^ n \<le> 1 / 2 * 2 ^ n"
      by (intro mult_right_mono) simp_all
    moreover have "\<bar>(of_int m :: rat) - of_int a / (of_int b * 2 ^ n)\<bar> * 2 ^ n =
        \<bar>of_int m * 2 ^ n - of_int a / of_int b\<bar>"
    proof -
      have "((of_int m :: rat) - of_int a / (of_int b * 2 ^ n)) * 2 ^ n =
          of_int m * 2 ^ n - of_int a / of_int b"
        using b' by (simp add: field_simps)
      then have "\<bar>((of_int m :: rat) - of_int a / (of_int b * 2 ^ n)) * 2 ^ n\<bar> =
          \<bar>of_int m * 2 ^ n - of_int a / of_int b\<bar>"
        by (rule arg_cong)
      then show ?thesis by (simp add: abs_mult)
    qed
    ultimately have "\<bar>(of_int m :: rat) * 2 ^ n - of_int a / of_int b\<bar> \<le> 2 ^ n / 2" by simp
    with True show ?thesis
      by (simp add: nd dval_def e1 powi_pred powi_nat n_def)
  next
    case False
    define n where "n = nat (- e)"
    define m where "m = round_half_even (a * 2 ^ n) b"
    have nd: "nearest_double a b = (m, e)"
      using assms False by (simp add: nearest_double_def e_def [symmetric] m_def n_def Let_def)
    from round_half_even_error [OF assms(2), of "a * 2 ^ n"]
    have "\<bar>(of_int m :: rat) - of_int a * 2 ^ n / of_int b\<bar> \<le> 1 / 2"
      by (simp add: m_def)
    then have "\<bar>(of_int m :: rat) - of_int a * 2 ^ n / of_int b\<bar> / 2 ^ n \<le> 1 / 2 / 2 ^ n"
      by (intro divide_right_mono) simp_all
    moreover have "\<bar>(of_int m :: rat) - of_int a * 2 ^ n / of_int b\<bar> / 2 ^ n =
        \<bar>of_int m / 2 ^ n - of_int a / of_int b\<bar>"
    proof -
      have "((of_int m :: rat) - of_int a * 2 ^ n / of_int b) / 2 ^ n =
          of_int m / 2 ^ n - of_int a / of_int b"
        using b' by (simp add: field_simps)
      then have "\<bar>((of_int m :: rat) - of_int a * 2 ^ n / of_int b) / 2 ^ n\<bar> =
          \<bar>of_int m / 2 ^ n - of_int a / of_int b\<bar>"
        by (rule arg_cong)
      then show ?thesis by (simp add: abs_divide)
    qed
    ultimately have "\<bar>(of_int m :: rat) / 2 ^ n - of_int a / of_int b\<bar> \<le> 1 / 2 / 2 ^ n" by simp
    with False show ?thesis
      by (simp add: nd dval_def e1 powi_pred powi_neg n_def)
  qed
qed


lemma floor_log2_less:
  assumes "0 < a" and "0 < b" and "of_int a / of_int b < (2::rat) powi j"
  shows "floor_log2 a b < j"
proof (rule ccontr)
  assume "\<not> floor_log2 a b < j"
  then have "j \<le> floor_log2 a b" by simp
  then have "(2::rat) powi j \<le> 2 powi (floor_log2 a b)"
    by (rule power_int_increasing) simp
  also have "\<dots> \<le> of_int a / of_int b" using assms(1,2) by (rule floor_log2_le)
  finally show False using assms(3) by simp
qed

lemma nearest_double_error_below:
  assumes "0 < a" and "0 < b" and "of_int a / of_int b < (2::rat) powi j"
  shows "\<bar>dval (nearest_double a b) - of_int a / of_int b\<bar> \<le> 2 powi (j - 54)"
proof -
  have "floor_log2 a b - 53 \<le> j - 54"
    using floor_log2_less [OF assms] by simp
  then have "(2::rat) powi (floor_log2 a b - 53) \<le> 2 powi (j - 54)"
    by (rule power_int_increasing) simp
  with nearest_double_error [OF assms(1,2)] show ?thesis by simp
qed

lemma nearest_double_exponent:
  assumes "0 < a" and "0 < b" and "of_int a / of_int b < (2::rat) powi j"
  shows "snd (nearest_double a b) < j - 52"
  using floor_log2_less [OF assms] assms(1)
  by (simp add: nearest_double_def Let_def)

lemma round_half_even_nonneg: "0 \<le> num \<Longrightarrow> 0 < den \<Longrightarrow> 0 \<le> round_half_even num den"
  by (auto simp: round_half_even_def Let_def pos_imp_zdiv_nonneg_iff)

lemma nearest_double_nonneg: "0 \<le> a \<Longrightarrow> 0 < b \<Longrightarrow> 0 \<le> fst (nearest_double a b)"
  by (simp add: nearest_double_def Let_def round_half_even_nonneg)

lemma dval_zero: "dval (0, e) = 0"
  by (simp add: dval_def)

lemma js_mul100_error:
  assumes "0 \<le> m" and "e < 0" and "100 * dval (m, e) < 2 powi j"
  shows "\<bar>dval (js_mul100 (m, e)) - 100 * dval (m, e)\<bar> \<le> 2 powi (j - 54)"
proof (cases "m = 0")
  case True
  with assms(2) show ?thesis
    by (simp add: js_mul100_def nearest_double_def dval_def)
next
  case False
  with assms(1) have m: "0 < 100 * m" by simp
  have d: "(0::int) < 2 ^ nat (- e)" by simp
  have eq: "of_int (100 * m) / of_int (2 ^ nat (- e)) = 100 * dval (m, e)"
    using assms(2) by (simp add: dval_def powi_neg)
  have "\<bar>dval (nearest_double (100 * m) (2 ^ nat (- e))) -
      of_int (100 * m) / of_int (2 ^ nat (- e))\<bar> \<le> 2 powi (j - 54)"
    using m d by (rule nearest_double_error_below) (simp only: eq assms(3))
  with assms(2) show ?thesis
    by (simp only: eq js_mul100_def prod.case) simp
qed

lemma toFixed1_n_error:
  "\<bar>(of_int (toFixed1_n (m, e)) :: rat) / 10 - dval (m, e)\<bar> \<le> 1 / 20"
proof (cases "e \<ge> 0")
  case True
  then show ?thesis by (simp add: toFixed1_n_def dval_def powi_nat)
next
  case False
  define D :: int where "D = 2 ^ nat (- e)"
  define n where "n = (20 * m + D) div (2 * D)"
  define r where "r = (20 * m + D) mod (2 * D)"
  have D: "0 < D" by (simp add: D_def)
  have r: "0 \<le> r" "r < 2 * D"
    using D by (simp_all add: r_def)
  have "20 * m + D = n * (2 * D) + r"
    by (simp only: n_def r_def div_mult_mod_eq)
  then have "(of_int (20 * m + D) :: rat) = of_int (n * (2 * D) + r)"
    by (simp only:)
  then have eq: "(20 :: rat) * of_int m + of_int D = of_int n * (2 * of_int D) + of_int r"
    by simp
  have r': "(0::rat) \<le> of_int r" "(of_int r :: rat) < 2 * of_int D"
    using r by (simp_all flip: of_int_less_iff [where ?'a = rat])
  have D': "(0::rat) < of_int D" using D by simp
  have mm: "(of_int m :: rat) = (of_int n * (2 * of_int D) + of_int r - of_int D) / 20"
    using eq by simp
  have "(of_int n :: rat) / 10 - of_int m / of_int D = (of_int D - of_int r) / (20 * of_int D)"
    unfolding mm using D' by (simp add: field_simps)
  moreover have "\<bar>(of_int D - of_int r :: rat) / (20 * of_int D)\<bar> \<le> 1 / 20"
    using D' r' by (simp add: field_simps abs_if)
  ultimately have "\<bar>(of_int n :: rat) / 10 - of_int m / of_int D\<bar> \<le> 1 / 20" by simp
  with False show ?thesis
    by (simp add: toFixed1_n_def dval_def powi_neg n_def D_def)
qed

lemma js_div_error:
  assumes "0 < p" and "p \<le> t"
  shows "\<bar>dval (js_div p t) - of_nat p / of_nat t\<bar> \<le> 2 powi (- 53)"
    and "0 \<le> fst (js_div p t)" and "snd (js_div p t) < 0"
proof -
  have a: "0 < int p" "0 < int t" using assms by simp_all
  have "(of_nat p :: rat) / of_nat t \<le> 1" using assms by simp
  then have lt: "of_int (int p) / of_int (int t) < (2::rat) powi 1" by simp
  from nearest_double_error_below [OF a lt]
  show "\<bar>dval (js_div p t) - of_nat p / of_nat t\<bar> \<le> 2 powi (- 53)"
    by (simp add: js_div_def)
  show "0 \<le> fst (js_div p t)"
    using a by (simp add: js_div_def nearest_double_nonneg)
  from nearest_double_exponent [OF a lt] show "snd (js_div p t) < 0"
    by (simp add: js_div_def)
qed

lemma pass_rate_error:
  assumes "0 < t" and "p \<le> t"
  shows "\<bar>(of_int (toFixed1_n (js_mul100 (js_div p t))) :: rat) / 10 - 100 * of_nat p / of_nat t\<bar>
           \<le> 1 / 20 + 1 / 10 ^ 12"
proof (cases "p = 0")
  case True
  then show ?thesis
    by (simp add: js_div_def js_mul100_def nearest_double_def toFixed1_n_def)
next
  case False
  then have p: "0 < p" by simp
  obtain m e where q: "js_div p t = (m, e)" by (cases "js_div p t")
  from js_div_error [OF p assms(2)] have
    dq: "\<bar>dval (m, e) - of_nat p / of_nat t\<bar> \<le> 2 powi (- 53)" and m: "0 \<le> m" and e: "e < 0"
    by (simp_all add: q)
  have "(of_nat p :: rat) / of_nat t \<le> 1" using assms by simp
  with dq have "dval (m, e) \<le> 1 + 2 powi (- 53)" by linarith
  then have "100 * dval (m, e) \<le> 100 * (1 + 2 powi (- 53))" by simp
  also have "\<dots> < 2 powi 7" by (simp add: power_int_minus)
  finally have lt: "100 * dval (m, e) < 2 powi 7" .
  from js_mul100_error [OF m e lt]
  have dr: "\<bar>dval (js_mul100 (m, e)) - 100 * dval (m, e)\<bar> \<le> 2 powi (- 47)" by simp
  obtain m' e' where r: "js_mul100 (m, e) = (m', e')" by (cases "js_mul100 (m, e)")
  have dn: "\<bar>(of_int (toFixed1_n (m', e')) :: rat) / 10 - dval (m', e')\<bar> \<le> 1 / 20"
    by (rule toFixed1_n_error)
  have dq': "\<bar>100 * dval (m, e) - 100 * of_nat p / of_nat t\<bar> \<le> 100 * 2 powi (- 53)"
  proof -
    have "100 * dval (m, e) - 100 * of_nat p / of_nat t =
        100 * (dval (m, e) - of_nat p / of_nat t)"
      by (simp add: algebra_simps)
    then have "\<bar>100 * dval (m, e) - 100 * of_nat p / of_nat t\<bar> =
        \<bar>100 * (dval (m, e) - of_nat p / of_nat t)\<bar>"
      by (rule arg_cong)
    also have "\<dots> = 100 * \<bar>dval (m, e) - of_nat p / of_nat t\<bar>"
      unfolding abs_mult by simp
    finally have "\<bar>100 * dval (m, e) - 100 * of_nat p / of_nat t\<bar> =
        100 * \<bar>dval (m, e) - of_nat p / of_nat t\<bar>" .
    with dq show ?thesis by simp
  qed
  have "\<bar>(of_int (toFixed1_n (m', e')) :: rat) / 10 - 100 * of_nat p / of_nat t\<bar>
      \<le> 1 / 20 + 2 powi (- 47) + 100 * 2 powi (- 53)"
    using dn dr dq' unfolding r by linarith
  also have "\<dots> \<le> 1 / 20 + 1 / 10 ^ 12" by (simp add: power_int_minus)
  finally show ?thesis by (simp add: q r)
qed

text \<open>
  The result of \<open>nearest_double\<close> is a double: \<open>floor_log2\<close> is the exponent of the
  quotient, so the mantissa has 53 binary digits (or is \<open>2 ^ 53\<close> after a carry).
\<close>

lemma floor_log2_upper:
  assumes "0 < a" and "0 < b"
  shows "of_int a / of_int b < (2::rat) powi (floor_log2 a b + 1)"
proof -
  define k where "k = bit_length a - bit_length b"
  have b': "(0::rat) < of_int b" using assms by simp
  show ?thesis
  proof (cases "if k \<ge> 0 then a \<ge> b * 2 ^ nat k else a * 2 ^ nat (- k) \<ge> b")
    case False
    then have fl: "floor_log2 a b = k - 1"
      by (simp add: floor_log2_def k_def [symmetric])
    show ?thesis
    proof (cases "k \<ge> 0")
      case True
      with False have "a < b * 2 ^ nat k" by simp
      then have "(of_int a :: rat) < of_int (b * 2 ^ nat k)" by (simp only: of_int_less_iff)
      then have "(of_int a :: rat) < of_int b * 2 ^ nat k" by simp
      with b' have "of_int a / of_int b < (2::rat) ^ nat k" by (simp add: field_simps)
      with True show ?thesis by (simp add: fl powi_nat)
    next
      case k: False
      with False have "a * 2 ^ nat (- k) < b" by simp
      then have "(of_int (a * 2 ^ nat (- k)) :: rat) < of_int b" by (simp only: of_int_less_iff)
      then have "(of_int a :: rat) * 2 ^ nat (- k) < of_int b" by simp
      with b' have "of_int a / of_int b < 1 / (2::rat) ^ nat (- k)" by (simp add: field_simps)
      with k show ?thesis by (simp add: fl powi_neg)
    qed
  next
    case True
    then have fl: "floor_log2 a b = k"
      by (simp add: floor_log2_def k_def [symmetric])
    from bit_length_bounds [OF assms(1)] have "a < 2 ^ nat (bit_length a)" by simp
    then have "(of_int a :: rat) < of_int (2 ^ nat (bit_length a))" by (simp only: of_int_less_iff)
    then have la: "(of_int a :: rat) < 2 ^ nat (bit_length a)" by simp
    from bit_length_bounds [OF assms(2)] have "2 ^ nat (bit_length b - 1) \<le> b" by simp
    then have "(of_int (2 ^ nat (bit_length b - 1)) :: rat) \<le> of_int b" by (simp only: of_int_le_iff)
    then have lb: "(2::rat) ^ nat (bit_length b - 1) \<le> of_int b" by simp
    have pa: "0 \<le> bit_length a" by (rule bit_length_nonneg)
    have pb: "1 \<le> bit_length b" using assms(2) by (rule bit_length_pos)
    have "of_int a / of_int b < (2::rat) ^ nat (bit_length a) / 2 ^ nat (bit_length b - 1)"
      using la lb b' assms by (intro frac_less) simp_all
    also have "\<dots> = 2 powi (bit_length a) / 2 powi (bit_length b - 1)"
      using pa pb by (simp add: powi_nat)
    also have "\<dots> = 2 powi (k + 1)"
      by (simp add: k_def power_int_diff [symmetric] algebra_simps)
    finally show ?thesis by (simp add: fl)
  qed
qed

lemma nearest_double_mantissa:
  assumes "0 < a" and "0 < b"
  shows "2 ^ 52 \<le> fst (nearest_double a b) \<and> fst (nearest_double a b) \<le> 2 ^ 53"
proof -
  define e where "e = floor_log2 a b - 52"
  define m where "m = fst (nearest_double a b)"
  have nd: "nearest_double a b = (m, e)"
    using assms(1) by (simp add: m_def e_def nearest_double_def Let_def)
  have pe: "(0::rat) < 2 powi e" by simp
  define x :: rat where "x = of_int a / of_int b / 2 powi e"
  have "\<bar>dval (m, e) - of_int a / of_int b\<bar> \<le> 2 powi (e - 1)"
    using nearest_double_error [OF assms] by (simp add: nd e_def)
  then have "\<bar>of_int m * 2 powi e - x * 2 powi e\<bar> \<le> 1 / 2 * 2 powi e"
    by (simp add: dval_def x_def powi_pred)
  then have "\<bar>(of_int m - x) * 2 powi e\<bar> \<le> 1 / 2 * 2 powi e"
    by (simp only: left_diff_distrib)
  then have "\<bar>of_int m - x\<bar> * 2 powi e \<le> 1 / 2 * 2 powi e"
    unfolding abs_mult by simp
  with pe have d: "\<bar>of_int m - x\<bar> \<le> 1 / 2"
    by (simp only: mult_le_cancel_right_pos)
  have "2 powi (floor_log2 a b) / 2 powi e \<le> x"
    unfolding x_def using floor_log2_le [OF assms] pe by (intro divide_right_mono) simp_all
  moreover have "2 powi (floor_log2 a b) / 2 powi e = (2::rat) powi 52"
    by (simp add: e_def power_int_diff [symmetric])
  ultimately have lo: "2 ^ 52 \<le> x" by simp
  have "x < 2 powi (floor_log2 a b + 1) / 2 powi e"
    unfolding x_def using floor_log2_upper [OF assms] pe by (intro divide_strict_right_mono) simp_all
  moreover have "2 powi (floor_log2 a b + 1) / 2 powi e = (2::rat) powi 53"
    by (simp add: e_def power_int_diff [symmetric])
  ultimately have hi: "x < 2 ^ 53" by simp
  from d lo hi have "(2 ^ 52 - 1 :: rat) < of_int m" "(of_int m :: rat) < 2 ^ 53 + 1"
    unfolding abs_le_iff by linarith+
  then have "(of_int (2 ^ 52 - 1) :: rat) < of_int m" "(of_int m :: rat) < of_int (2 ^ 53 + 1)"
    by simp_all
  then have "2 ^ 52 - 1 < m" "m < 2 ^ 53 + 1"
    by (simp_all only: of_int_less_iff)
  then show ?thesis by (simp add: m_def)
qed

lemma onTestEnd_passed_le_total:
  "passed (stats r) \<le> total (stats r) \<Longrightarrow>
   passed (stats (onTestEnd r t res)) \<le> total (stats (onTestEnd r t res))"
  by (cases "status res") (simp_all add: onTestEnd_def Let_def)

lemma recordAll_passed_le_total:
  "passed (stats r) \<le> total (stats r) \<Longrightarrow>
   passed (stats (recordAll r evs)) \<le> total (stats (recordAll r evs))"
  by (induction evs rule: rev_induct)
     (simp_all add: recordAll_def onTestEnd_passed_le_total split: prod.splits)

lemma getPassRate_23_25:
  "passed (stats r) = 23 \<Longrightarrow> total (stats r) = 25 \<Longrightarrow> getPassRate r = lit ''92.0%''"
  by (simp add: getPassRate_def toFixed1_def toFixed1_n_def show_tenths_def js_div_def
      js_mul100_def nearest_double_def floor_log2_def bit_length.simps round_half_even_def
      Let_def show_int_def show_nat.simps lit_def digit_def)

text \<open>
  Claim C7. The pass-rate text is \<open>0%\<close> when no test was recorded. Otherwise, for the
  counters of a collector state (\<open>passed\<close> never exceeds \<open>total\<close>), it is a number with one
  decimal place followed by \<open>%\<close>: the digits of some \<open>n\<close> between 0 and 1000 with the point
  before the last one, where \<open>n / 10\<close> is the exact rate \<open>passed / total * 100\<close> rounded
  to one decimal, up to the error of the double-precision arithmetic (less than \<open>10 ^ -12\<close>).
  With 23 passed out of 25 the text is \<open>92.0%\<close>.
\<close>

theorem C7_pass_rate:
  "(total (stats r) = 0 \<longrightarrow> getPassRate r = lit ''0%'') \<and>
   (0 < total (stats r) \<and> passed (stats r) \<le> total (stats r) \<longrightarrow>
      (\<exists>n. getPassRate r = show_tenths n @ lit ''%'' \<and> 0 \<le> n \<and> n \<le> 1000 \<and>
           \<bar>(of_int n :: rat) / 10 - 100 * of_nat (passed (stats r)) / of_nat (total (stats r))\<bar>
             \<le> 1 / 20 + 1 / 10 ^ 12)) \<and>
   (passed (stats r) = 23 \<and> total (stats r) = 25 \<longrightarrow> getPassRate r = lit ''92.0%'')"
proof (intro conjI impI)
  show "getPassRate r = lit ''0%''" if "total (stats r) = 0"
    using that by (simp add: getPassRate_def)
  show "getPassRate r = lit ''92.0%''" if "passed (stats r) = 23 \<and> total (stats r) = 25"
    using that by (simp add: getPassRate_23_25)
  show "\<exists>n. getPassRate r = show_tenths n @ lit ''%'' \<and> 0 \<le> n \<and> n \<le> 1000 \<and>
      \<bar>(of_int n :: rat) / 10 - 100 * of_nat (passed (stats r)) / of_nat (total (stats r))\<bar>
        \<le> 1 / 20 + 1 / 10 ^ 12"
    if h: "0 < total (stats r) \<and> passed (stats r) \<le> total (stats r)"
  proof -
    define p t where "p = passed (stats r)" and "t = total (stats r)"
    define n where "n = toFixed1_n (js_mul100 (js_div p t))"
    from h have t: "0 < t" and pt: "p \<le> t" by (simp_all add: p_def t_def)
    have err: "\<bar>(of_int n :: rat) / 10 - 100 * of_nat p / of_nat t\<bar> \<le> 1 / 20 + 1 / 10 ^ 12"
      unfolding n_def using t pt by (rule pass_rate_error)
    define x :: rat where "x = 100 * of_nat p / of_nat t"
    have rate: "0 \<le> x" "x \<le> 100"
      using t pt by (simp_all add: x_def field_simps)
    have "1 / 20 + 1 / 10 ^ 12 < (1 / 10 :: rat)" by simp
    with err have "\<bar>(of_int n :: rat) / 10 - x\<bar> < 1 / 10"
      unfolding x_def by (rule le_less_trans)
    then have "(of_int n :: rat) / 10 - x < 1 / 10" "- (1 / 10) < (of_int n :: rat) / 10 - x"
      unfolding abs_less_iff by linarith+
    with rate have "- 1 < (of_int n :: rat)" "(of_int n :: rat) < 1001"
      by linarith+
    then have "(of_int (- 1) :: rat) < of_int n" "(of_int n :: rat) < of_int 1001"
      by simp_all
    then have "- 1 < n" "n < 1001"
      by (simp_all only: of_int_less_iff)
    then have bounds: "0 \<le> n" "n \<le> 1000" by simp_all
    have "getPassRate r = show_tenths n @ lit ''%''"
      using t by (simp add: getPassRate_def toFixed1_def n_def p_def t_def)
    with bounds err show ?thesis
      unfolding p_def t_def by blast
  qed
qed

theorem C7_pass_rate_witness:
  "total (stats sampleDiscord) = 0 \<and> getPassRate sampleDiscord = lit ''0%'' \<and>
   passed (stats ratedDiscord) = 23 \<and> total (stats ratedDiscord) = 25 \<and>
   getPassRate ratedDiscord = lit ''92.0%'' \<and>
   (\<exists>n. getPassRate ratedDiscord = show_tenths n @ lit ''%'' \<and> 0 \<le> n \<and> n \<le> 1000 \<and>
        \<bar>(of_int n :: rat) / 10 - 100 * 23 / 25\<bar> \<le> 1 / 20 + 1 / 10 ^ 12)"
proof -
  have z: "total (stats sampleDiscord) = 0"
    by (simp add: sampleDiscord_def newDiscordReporter_def initialStats_def)
  have s: "passed (stats ratedDiscord) = 23" "total (stats ratedDiscord) = 25"
    by (simp_all add: ratedDiscord_def)
  from C7_pass_rate [of sampleDiscord] z have a: "getPassRate sampleDiscord = lit ''0%''"
    by blast
  from C7_pass_rate [of ratedDiscord] s have b: "getPassRate ratedDiscord = lit ''92.0%''"
    by blast
  have h: "0 < total (stats ratedDiscord) \<and> passed (stats ratedDiscord) \<le> total (stats ratedDiscord)"
    by (simp add: s)
  from C7_pass_rate [of ratedDiscord] h
  have "\<exists>n. getPassRate ratedDiscord = show_tenths n @ lit ''%'' \<and> 0 \<le> n \<and> n \<le> 1000 \<and>
        \<bar>(of_int n :: rat) / 10 - 100 * of_nat (passed (stats ratedDiscord)) /
          of_nat (total (stats ratedDiscord))\<bar> \<le> 1 / 20 + 1 / 10 ^ 12"
    by blast
  then have "\<exists>n. getPassRate ratedDiscord = show_tenths n @ lit ''%'' \<and> 0 \<le> n \<and> n \<le> 1000 \<and>
        \<bar>(of_int n :: rat) / 10 - 100 * 23 / 25\<bar> \<le> 1 / 20 + 1 / 10 ^ 12"
    by (simp only: s of_nat_numeral)
  with z s a b show ?thesis by blast
qed

end
